theory Spec2Isabelle
  imports Main "HOL-Library.AList"
begin

section \<open>The reversible-mutation engine of a11y.user.js\<close>

text \<open>
  The userscript keeps its whole state in the variables of one closure and in the host
  document. The model makes both explicit: one record holds the document (the nodes, their
  attributes and inline styles, the tree order), the change log and the engine variables.
  Every function of the script becomes a function from state to state; a JavaScript
  exception becomes the value \<open>Inl e\<close>.

  Modelling conventions.
  \<^item> A node is named by a number. \<open>nodes s n\<close> is the object behind the reference \<open>n\<close>.
  \<^item> \<open>attributes\<close> is the attribute list of an element, as a map from name to value.
  \<^item> \<open>style\<close> is the inline style declaration: \<open>el.style[prop]\<close> reads \<open>''''\<close> for a
    property that is not set, and an assignment stores the string it is given.
  \<^item> \<open>ancestors\<close> is the chain of \<open>parentNode\<close> links, nearest first; \<open>isConnected\<close>
    is the DOM property of that name; \<open>treeOrder\<close> lists the nodes in tree order (a
    detached node stays in the list), so that \<open>querySelectorAll\<close> has an order to return.
  \<^item> \<open>visible\<close>, \<open>innerText\<close> and \<open>onclickHandler\<close> stand for what layout and the host
    page decide (\<open>isVisible(el)\<close>, \<open>el.innerText\<close>, \<open>typeof el.onclick === 'function'\<close>).
  \<^item> The plain objects \<open>entry.attrs\<close> and \<open>entry.styles\<close> and the \<open>Map\<close> \<open>changeLog\<close>
    are association lists in insertion order; property names are ordinary attribute and
    style names.
  \<^item> An exception ends the call that raised it: the model returns \<open>Inl e\<close> and does not
    describe the state the exception leaves behind.

  Outside the model: the toggle button and its stored preference, the version notice, the
  event listeners that rules and \<open>setupKeyboardInteractions\<close> register (when they fire
  they act through the same tracked writes), and \<open>focus()\<close>.
\<close>

subsection \<open>Data\<close>

datatype error = TypeError

record node =
  nodeType :: nat
  tagName :: string
  attributes :: "string \<rightharpoonup> string"
  style :: "string \<Rightarrow> string"
  ancestors :: "nat list"
  isConnected :: bool
  innerText :: string
  textContent :: string
  visible :: bool
  onclickHandler :: bool

record entry =
  attrs :: "(string \<times> string option) list"
  styles :: "(string \<times> string) list"

datatype frame = LocalBatch "nat list" | GlobalPass

record state =
  nodes :: "nat \<Rightarrow> node"
  treeOrder :: "nat list"
  nextNode :: nat
  docHead :: "nat option"
  docBody :: "nat option"
  changeLog :: "(nat \<times> entry) list"
  a11yEnabled :: bool
  mutationObserver :: "nat option"
  observing :: "nat list"
  nextObserver :: nat
  observerSupport :: bool
  enhancementScheduled :: bool
  skipLinkEl :: "nat option"
  liveRegionEl :: "nat option"
  globalStyleEl :: "nat option"
  mutationCounter :: nat
  pendingItemCount :: nat
  frameQueue :: "frame list"
  timers :: "(nat \<times> string) list"

subsection \<open>Utilities\<close>

definition isElement :: "state \<Rightarrow> nat \<Rightarrow> bool" where
  "isElement s el = (nodeType (nodes s el) = 1)"

definition parentNode :: "state \<Rightarrow> nat \<Rightarrow> nat option" where
  "parentNode s el = (case ancestors (nodes s el) of [] \<Rightarrow> None | p # _ \<Rightarrow> Some p)"

definition emptyEntry :: entry where
  "emptyEntry = \<lparr>attrs = [], styles = []\<rparr>"

definition getEntry :: "state \<Rightarrow> nat \<Rightarrow> entry" where
  "getEntry s el = (case map_of (changeLog s) el of Some e \<Rightarrow> e | None \<Rightarrow> emptyEntry)"

definition hasOwnProperty :: "(string \<times> 'v) list \<Rightarrow> string \<Rightarrow> bool" where
  "hasOwnProperty obj k = (map_of obj k \<noteq> None)"

definition orEmpty :: "string \<Rightarrow> string" where
  "orEmpty v = (if v = [] then [] else v)"

fun forEach :: "('a \<Rightarrow> state \<Rightarrow> error + state) \<Rightarrow> 'a list \<Rightarrow> state \<Rightarrow> error + state" where
  "forEach f [] s = Inr s"
| "forEach f (x # xs) s = (case f x s of Inl e \<Rightarrow> Inl e | Inr s' \<Rightarrow> forEach f xs s')"

subsection \<open>The DOM calls the ledger makes\<close>

text \<open>
  \<open>hasAttribute\<close>, \<open>getAttribute\<close>, \<open>setAttribute\<close>, \<open>removeAttribute\<close> and \<open>style\<close> exist
  on elements only: on any other node the call is a TypeError.
\<close>

definition readAttribute :: "nat \<Rightarrow> string \<Rightarrow> state \<Rightarrow> error + string option" where
  "readAttribute el attr s =
     (if isElement s el then Inr (attributes (nodes s el) attr) else Inl TypeError)"

definition setAttribute :: "nat \<Rightarrow> string \<Rightarrow> string \<Rightarrow> state \<Rightarrow> error + state" where
  "setAttribute el attr val s =
     (if isElement s el
      then Inr (s\<lparr>nodes := (nodes s)(el := (nodes s el)\<lparr>attributes := (attributes (nodes s el))(attr \<mapsto> val)\<rparr>)\<rparr>)
      else Inl TypeError)"

definition removeAttribute :: "nat \<Rightarrow> string \<Rightarrow> state \<Rightarrow> error + state" where
  "removeAttribute el attr s =
     (if isElement s el
      then Inr (s\<lparr>nodes := (nodes s)(el := (nodes s el)\<lparr>attributes := (attributes (nodes s el))(attr := None)\<rparr>)\<rparr>)
      else Inl TypeError)"

definition readStyle :: "nat \<Rightarrow> string \<Rightarrow> state \<Rightarrow> error + string" where
  "readStyle el prop s =
     (if isElement s el then Inr (style (nodes s el) prop) else Inl TypeError)"

definition setStyle :: "nat \<Rightarrow> string \<Rightarrow> string \<Rightarrow> state \<Rightarrow> error + state" where
  "setStyle el prop val s =
     (if isElement s el
      then Inr (s\<lparr>nodes := (nodes s)(el := (nodes s el)\<lparr>style := (style (nodes s el))(prop := val)\<rparr>)\<rparr>)
      else Inl TypeError)"

subsection \<open>The ledger: tracked writes, rollback, garbage collection\<close>

text \<open>
  \<open>captureAttr\<close> is the first half of \<open>setAttrTracked\<close> and \<open>removeAttrTracked\<close>
  (\<open>ensureEntry\<close>, then the \<open>hasOwnProperty\<close> test and the capture); \<open>captureStyle\<close> is
  the first half of \<open>setStyleTracked\<close>, which \<open>enhanceLocalDropdowns\<close> also performs on its
  own for the panel's \<open>display\<close>.
\<close>

definition ensureEntry :: "nat \<Rightarrow> state \<Rightarrow> state" where
  "ensureEntry el s =
     (if map_of (changeLog s) el = None
      then s\<lparr>changeLog := AList.update el emptyEntry (changeLog s)\<rparr>
      else s)"

definition recordAttr :: "nat \<Rightarrow> string \<Rightarrow> string option \<Rightarrow> state \<Rightarrow> state" where
  "recordAttr el attr old s =
     s\<lparr>changeLog := AList.update el
         ((getEntry s el)\<lparr>attrs := AList.update attr old (attrs (getEntry s el))\<rparr>) (changeLog s)\<rparr>"

definition recordStyle :: "nat \<Rightarrow> string \<Rightarrow> string \<Rightarrow> state \<Rightarrow> state" where
  "recordStyle el prop old s =
     s\<lparr>changeLog := AList.update el
         ((getEntry s el)\<lparr>styles := AList.update prop old (styles (getEntry s el))\<rparr>) (changeLog s)\<rparr>"

definition captureAttr :: "nat \<Rightarrow> string \<Rightarrow> state \<Rightarrow> error + state" where
  "captureAttr el attr s =
     (let s1 = ensureEntry el s in
      if \<not> hasOwnProperty (attrs (getEntry s1 el)) attr
      then (case readAttribute el attr s1 of
              Inl e \<Rightarrow> Inl e
            | Inr old \<Rightarrow> Inr (recordAttr el attr old s1))
      else Inr s1)"

definition setAttrTracked :: "nat \<Rightarrow> string \<Rightarrow> string \<Rightarrow> state \<Rightarrow> error + state" where
  "setAttrTracked el attr val s =
     (case captureAttr el attr s of
        Inl e \<Rightarrow> Inl e
      | Inr s1 \<Rightarrow> setAttribute el attr val s1)"

definition removeAttrTracked :: "nat \<Rightarrow> string \<Rightarrow> state \<Rightarrow> error + state" where
  "removeAttrTracked el attr s =
     (case captureAttr el attr s of
        Inl e \<Rightarrow> Inl e
      | Inr s1 \<Rightarrow> removeAttribute el attr s1)"

definition captureStyle :: "nat \<Rightarrow> string \<Rightarrow> state \<Rightarrow> error + state" where
  "captureStyle el prop s =
     (let s1 = ensureEntry el s in
      if \<not> hasOwnProperty (styles (getEntry s1 el)) prop
      then (case readStyle el prop s1 of
              Inl e \<Rightarrow> Inl e
            | Inr old \<Rightarrow> Inr (recordStyle el prop (orEmpty old) s1))
      else Inr s1)"

definition setStyleTracked :: "nat \<Rightarrow> string \<Rightarrow> string \<Rightarrow> state \<Rightarrow> error + state" where
  "setStyleTracked el prop val s =
     (case captureStyle el prop s of
        Inl e \<Rightarrow> Inl e
      | Inr s1 \<Rightarrow> setStyle el prop val s1)"

definition restoreAttr :: "nat \<Rightarrow> string \<times> string option \<Rightarrow> state \<Rightarrow> error + state" where
  "restoreAttr el kv s =
     (case snd kv of
        None \<Rightarrow> removeAttribute el (fst kv) s
      | Some oldVal \<Rightarrow> setAttribute el (fst kv) oldVal s)"

definition restoreStyle :: "nat \<Rightarrow> string \<times> string \<Rightarrow> state \<Rightarrow> error + state" where
  "restoreStyle el kv s = setStyle el (fst kv) (snd kv) s"

definition restoreEntry :: "nat \<times> entry \<Rightarrow> state \<Rightarrow> error + state" where
  "restoreEntry p s =
     (if \<not> isElement s (fst p) then Inr s
      else (case forEach (restoreAttr (fst p)) (attrs (snd p)) s of
              Inl e \<Rightarrow> Inl e
            | Inr s1 \<Rightarrow> forEach (restoreStyle (fst p)) (styles (snd p)) s1))"

definition clearAllTrackedChanges :: "state \<Rightarrow> error + state" where
  "clearAllTrackedChanges s =
     (case forEach restoreEntry (changeLog s) s of
        Inl e \<Rightarrow> Inl e
      | Inr s1 \<Rightarrow> Inr (s1\<lparr>changeLog := []\<rparr>))"

definition garbageCollect :: "state \<Rightarrow> state" where
  "garbageCollect s =
     s\<lparr>changeLog :=
         fold (\<lambda>el log. if \<not> isConnected (nodes s el) then AList.delete el log else log)
              (map fst (changeLog s)) (changeLog s)\<rparr>"

subsection \<open>Tracked writes as data\<close>

text \<open>
  A rule acts on the page through the tracked-write functions only (and, in
  \<open>enhanceLocalDropdowns\<close>, through one capture without a write). \<open>op\<close> names one
  tracked write, \<open>action\<close> one such step of a rule; \<open>key\<close> names what a write touches.
\<close>

datatype op = SetAttr nat string string | RemoveAttr nat string | SetStyle nat string string

datatype action = Write op | CaptureStyle nat string

datatype key = AttrKey string | StyleKey string

fun trackedWrite :: "op \<Rightarrow> state \<Rightarrow> error + state" where
  "trackedWrite (SetAttr el attr val) s = setAttrTracked el attr val s"
| "trackedWrite (RemoveAttr el attr) s = removeAttrTracked el attr s"
| "trackedWrite (SetStyle el prop val) s = setStyleTracked el prop val s"

definition runWrites :: "op list \<Rightarrow> state \<Rightarrow> error + state" where
  "runWrites ops s = forEach trackedWrite ops s"

fun perform :: "action \<Rightarrow> state \<Rightarrow> error + state" where
  "perform (Write w) s = trackedWrite w s"
| "perform (CaptureStyle el prop) s = captureStyle el prop s"

definition performAll :: "action list \<Rightarrow> state \<Rightarrow> error + state" where
  "performAll acts s = forEach perform acts s"



definition capturedAttr :: "state \<Rightarrow> nat \<Rightarrow> string \<Rightarrow> string option option" where
  "capturedAttr s el attr = map_of (attrs (getEntry s el)) attr"

definition capturedStyle :: "state \<Rightarrow> nat \<Rightarrow> string \<Rightarrow> string option" where
  "capturedStyle s el prop = map_of (styles (getEntry s el)) prop"

fun captured :: "state \<Rightarrow> nat \<Rightarrow> key \<Rightarrow> string option option" where
  "captured s el (AttrKey attr) = capturedAttr s el attr"
| "captured s el (StyleKey prop) = map_option Some (capturedStyle s el prop)"




subsection \<open>Strings and selectors\<close>

definition andThen :: "error + 'a \<Rightarrow> ('a \<Rightarrow> error + 'b) \<Rightarrow> error + 'b" where
  "andThen r f = (case r of Inl e \<Rightarrow> Inl e | Inr x \<Rightarrow> f x)"

definition isSpace :: "char \<Rightarrow> bool" where
  "isSpace c = (c \<in> set [CHR '' '', CHR 0x09, CHR 0x0A, CHR 0x0B, CHR 0x0C, CHR 0x0D])"

definition isBlank :: "string \<Rightarrow> bool" where
  "isBlank str = list_all isSpace str"

fun startsWith :: "string \<Rightarrow> string \<Rightarrow> bool" where
  "startsWith [] ys = True"
| "startsWith (x # xs) [] = False"
| "startsWith (x # xs) (y # ys) = (x = y \<and> startsWith xs ys)"

fun hasSubstring :: "string \<Rightarrow> string \<Rightarrow> bool" where
  "hasSubstring sub [] = (sub = [])"
| "hasSubstring sub (c # cs) = (startsWith sub (c # cs) \<or> hasSubstring sub cs)"

fun tokens :: "string \<Rightarrow> string \<Rightarrow> string list" where
  "tokens acc [] = (if acc = [] then [] else [acc])"
| "tokens acc (c # cs) =
     (if isSpace c then (if acc = [] then tokens [] cs else acc # tokens [] cs)
      else tokens (acc @ [c]) cs)"

text \<open>
  The selectors the script uses: a type selector (written with the upper-case name that
  \<open>tagName\<close> reports), \<open>[a]\<close>, \<open>[a="v"]\<close>, \<open>[a*="v"]\<close>, \<open>.c\<close>, and a compound of two of them
  as in \<open>a[href]\<close>. A selector list is a list.
\<close>

datatype simple =
    Tag string
  | HasAttr string
  | AttrEq string string
  | AttrContains string string
  | Class string
  | Both simple simple

fun matchesSimple :: "node \<Rightarrow> simple \<Rightarrow> bool" where
  "matchesSimple nd (Tag t) = (tagName nd = t)"
| "matchesSimple nd (HasAttr a) = (attributes nd a \<noteq> None)"
| "matchesSimple nd (AttrEq a v) = (attributes nd a = Some v)"
| "matchesSimple nd (AttrContains a v) =
     (case attributes nd a of None \<Rightarrow> False | Some x \<Rightarrow> hasSubstring v x)"
| "matchesSimple nd (Class c) =
     (case attributes nd ''class'' of None \<Rightarrow> False | Some x \<Rightarrow> c \<in> set (tokens [] x))"
| "matchesSimple nd (Both a b) = (matchesSimple nd a \<and> matchesSimple nd b)"

definition matches :: "state \<Rightarrow> nat \<Rightarrow> simple list \<Rightarrow> bool" where
  "matches s el sel = (isElement s el \<and> list_ex (matchesSimple (nodes s el)) sel)"

text \<open>\<open>root || document\<close>: no root means the document.\<close>

definition descendants :: "state \<Rightarrow> nat option \<Rightarrow> nat list" where
  "descendants s root =
     (case root of
        None \<Rightarrow> filter (\<lambda>n. isConnected (nodes s n)) (treeOrder s)
      | Some r \<Rightarrow> filter (\<lambda>n. r \<in> set (ancestors (nodes s n))) (treeOrder s))"

definition querySelectorAll :: "simple list \<Rightarrow> nat option \<Rightarrow> state \<Rightarrow> nat list" where
  "querySelectorAll sel root s = filter (\<lambda>n. matches s n sel) (descendants s root)"

definition querySelector :: "simple list \<Rightarrow> state \<Rightarrow> nat option" where
  "querySelector sel s = (case querySelectorAll sel None s of [] \<Rightarrow> None | n # _ \<Rightarrow> Some n)"

definition hasAttribute :: "state \<Rightarrow> nat \<Rightarrow> string \<Rightarrow> bool" where
  "hasAttribute s el attr = (attributes (nodes s el) attr \<noteq> None)"

definition isVisible :: "state \<Rightarrow> nat \<Rightarrow> bool" where
  "isVisible s el = (isElement s el \<and> visible (nodes s el))"

definition elementHasOwnAccessibility :: "state \<Rightarrow> nat \<Rightarrow> bool" where
  "elementHasOwnAccessibility s el =
     (hasAttribute s el ''role'' \<or> hasAttribute s el ''aria-label''
      \<or> hasAttribute s el ''aria-labelledby'' \<or> hasAttribute s el ''aria-describedby'')"

subsection \<open>Creating, inserting and removing the engine's own nodes\<close>

text \<open>
  The script inserts only elements it has just created (the style sheet, the skip link,
  the live region) and removes only those. How the browser lays these three nodes out is
  not modelled: they keep the \<open>visible\<close> and \<open>innerText\<close> of a fresh element.
\<close>

definition blankElement :: "string \<Rightarrow> node" where
  "blankElement tag =
     \<lparr>nodeType = 1, tagName = tag, attributes = Map.empty, style = (\<lambda>_. []),
      ancestors = [], isConnected = False, innerText = [], textContent = [],
      visible = False, onclickHandler = False\<rparr>"

definition createElement :: "string \<Rightarrow> state \<Rightarrow> nat \<times> state" where
  "createElement tag s =
     (nextNode s,
      s\<lparr>nodes := (nodes s)(nextNode s := blankElement tag),
        treeOrder := treeOrder s @ [nextNode s],
        nextNode := Suc (nextNode s)\<rparr>)"

definition attach :: "nat \<Rightarrow> nat \<Rightarrow> state \<Rightarrow> state" where
  "attach p c s =
     s\<lparr>nodes := (nodes s)(c := (nodes s c)\<lparr>ancestors := p # ancestors (nodes s p),
                                            isConnected := isConnected (nodes s p)\<rparr>)\<rparr>"

definition inSubtree :: "state \<Rightarrow> nat \<Rightarrow> nat \<Rightarrow> bool" where
  "inSubtree s p n = (n = p \<or> p \<in> set (ancestors (nodes s n)))"

definition appendChild :: "nat \<Rightarrow> nat \<Rightarrow> state \<Rightarrow> state" where
  "appendChild p c s =
     (let order = rev (removeAll c (treeOrder s)) in
      (attach p c s)\<lparr>treeOrder :=
         rev (dropWhile (\<lambda>n. \<not> inSubtree s p n) order) @ [c]
           @ rev (takeWhile (\<lambda>n. \<not> inSubtree s p n) order)\<rparr>)"

definition insertFirst :: "nat \<Rightarrow> nat \<Rightarrow> state \<Rightarrow> state" where
  "insertFirst p c s =
     (let order = removeAll c (treeOrder s) in
      (attach p c s)\<lparr>treeOrder :=
         takeWhile (\<lambda>n. n \<noteq> p) order @
           (case dropWhile (\<lambda>n. n \<noteq> p) order of [] \<Rightarrow> [c] | q # rest \<Rightarrow> q # c # rest)\<rparr>)"

definition removeFromParent :: "nat \<Rightarrow> state \<Rightarrow> state" where
  "removeFromParent c s =
     s\<lparr>nodes := (nodes s)(c := (nodes s c)\<lparr>ancestors := [], isConnected := False\<rparr>)\<rparr>"

definition setAttributeNew :: "nat \<Rightarrow> string \<Rightarrow> string \<Rightarrow> state \<Rightarrow> state" where
  "setAttributeNew el attr val s =
     s\<lparr>nodes := (nodes s)(el := (nodes s el)\<lparr>attributes := (attributes (nodes s el))(attr \<mapsto> val)\<rparr>)\<rparr>"

definition setTextContent :: "nat \<Rightarrow> string \<Rightarrow> state \<Rightarrow> state" where
  "setTextContent el txt s =
     s\<lparr>nodes := (nodes s)(el := (nodes s el)\<lparr>textContent := txt\<rparr>)\<rparr>"

subsection \<open>Global styles, skip link, live region\<close>

definition globalStyleText :: string where
  "globalStyleText =
     '':where(a, button, input, textarea, select, [tabindex]):focus-visible { outline: 3px solid #005fcc !important; outline-offset: 2px !important; } '' @
     ''.a11y-skip-link { position: absolute; left: -999px; top: -999px; background: #000; color: #fff; padding: 6px 10px; z-index: 2147483647; } '' @
     ''.a11y-skip-link:focus { left: 10px; top: 10px; } '' @
     ''.a11y-live-region { position: absolute; left: -9999px; width: 1px; height: 1px; overflow: hidden; }''"

definition addGlobalStyles :: "state \<Rightarrow> state" where
  "addGlobalStyles s =
     (if globalStyleEl s \<noteq> None \<or> \<not> a11yEnabled s then s
      else case docHead s of
        None \<Rightarrow> s
      | Some h \<Rightarrow>
          (let (el, s1) = createElement ''STYLE'' s;
               s2 = setAttributeNew el ''id'' ''a11y-global-style'' s1;
               s3 = setTextContent el globalStyleText s2;
               s4 = appendChild h el s3
           in s4\<lparr>globalStyleEl := Some el\<rparr>))"

definition removeGlobalStyles :: "state \<Rightarrow> state" where
  "removeGlobalStyles s =
     (let s1 = (case globalStyleEl s of
                  None \<Rightarrow> s
                | Some g \<Rightarrow> if parentNode s g \<noteq> None then removeFromParent g s else s)
      in s1\<lparr>globalStyleEl := None\<rparr>)"

definition idOf :: "state \<Rightarrow> nat \<Rightarrow> string" where
  "idOf s el = (case attributes (nodes s el) ''id'' of None \<Rightarrow> [] | Some v \<Rightarrow> v)"

definition insertSkipLink :: "nat \<Rightarrow> nat \<Rightarrow> state \<Rightarrow> state" where
  "insertSkipLink b mainCandidate s =
     (let (skip, s2) = createElement ''A'' s;
          s3 = setAttributeNew skip ''href'' (''#'' @ idOf s mainCandidate) s2;
          s4 = setAttributeNew skip ''class'' ''a11y-skip-link'' s3;
          s5 = setTextContent skip ''Skip to main content'' s4;
          s6 = insertFirst b skip s5
      in s6\<lparr>skipLinkEl := Some skip\<rparr>)"

definition addSkipLink :: "state \<Rightarrow> error + state" where
  "addSkipLink s =
     (if \<not> a11yEnabled s then Inr s
      else case docBody s of
        None \<Rightarrow> Inr s
      | Some b \<Rightarrow>
          if (case skipLinkEl s of None \<Rightarrow> False | Some k \<Rightarrow> parentNode s k \<noteq> None) then Inr s
          else
            (let mainCandidate = (case querySelector [Tag ''MAIN''] s of None \<Rightarrow> b | Some m \<Rightarrow> m)
             in andThen (if idOf s mainCandidate = []
                         then setAttrTracked mainCandidate ''id'' ''a11y-main'' s else Inr s)
                  (\<lambda>s1. Inr (insertSkipLink b mainCandidate s1))))"

definition removeSkipLink :: "state \<Rightarrow> state" where
  "removeSkipLink s =
     (let s1 = (case skipLinkEl s of
                  None \<Rightarrow> s
                | Some k \<Rightarrow> if parentNode s k \<noteq> None then removeFromParent k s else s)
      in s1\<lparr>skipLinkEl := None\<rparr>)"

text \<open>\<open>document.body.appendChild\<close> on a document without a body is a TypeError.\<close>

definition getLiveRegion :: "state \<Rightarrow> error + (nat option \<times> state)" where
  "getLiveRegion s =
     (if \<not> a11yEnabled s then Inr (None, s)
      else if (case liveRegionEl s of None \<Rightarrow> False | Some r \<Rightarrow> parentNode s r \<noteq> None)
      then Inr (liveRegionEl s, s)
      else
        (let (region, s1) = createElement ''DIV'' s;
             s2 = setAttributeNew region ''id'' ''a11y-live-region'' s1;
             s3 = setAttributeNew region ''class'' ''a11y-live-region'' s2;
             s4 = setAttributeNew region ''role'' ''status'' s3;
             s5 = setAttributeNew region ''aria-live'' ''polite'' s4
         in case docBody s5 of
              None \<Rightarrow> Inl TypeError
            | Some b \<Rightarrow> Inr (Some region, (appendChild b region s5)\<lparr>liveRegionEl := Some region\<rparr>)))"

definition removeLiveRegion :: "state \<Rightarrow> state" where
  "removeLiveRegion s =
     (let s1 = (case liveRegionEl s of
                  None \<Rightarrow> s
                | Some r \<Rightarrow> if parentNode s r \<noteq> None then removeFromParent r s else s)
      in s1\<lparr>liveRegionEl := None\<rparr>)"

text \<open>
  \<open>setTimeout\<close> puts the deferred assignment of the text on \<open>timers\<close>.
\<close>

definition announce :: "string \<Rightarrow> state \<Rightarrow> error + state" where
  "announce txt s =
     (if \<not> a11yEnabled s then Inr s
      else if txt = [] then Inr s
      else andThen (getLiveRegion s)
             (\<lambda>(r, s1). case r of
                  None \<Rightarrow> Inr s1
                | Some region \<Rightarrow>
                    Inr ((setTextContent region [] s1)\<lparr>timers := timers s1 @ [(region, txt)]\<rparr>)))"

definition timerCallback :: "nat \<times> string \<Rightarrow> state \<Rightarrow> state" where
  "timerCallback t s = setTextContent (fst t) (snd t) s"

subsection \<open>The enhancement rules\<close>

text \<open>
  Each rule is modelled down to its guard on \<open>a11yEnabled\<close>, its selector, and the tests
  and tracked writes that decide whether a node is processed again. What a heuristic
  computes from class names, URLs, siblings or computed styles is a parameter:
  \<^item> \<open>buttonLabel\<close> and \<open>linkLabel\<close> are the label that steps 1 to 9 of
    \<open>enhanceUnlabeledButtons\<close> (1 to 5 of \<open>enhanceUnlabeledLinks\<close>) choose; every path
    through those steps ends in one \<open>setAttrTracked(el, "aria-label", label)\<close>;
  \<^item> the other fields give, for a candidate node, the steps that the rest of the
    callback performs, as a list computed from the state in which the callback runs;
  \<^item> \<open>positiveTabindex v\<close> stands for \<open>parseInt(v, 10) > 0\<close>.
\<close>

record rules =
  buttonLabel :: "state \<Rightarrow> nat \<Rightarrow> string"
  linkLabel :: "state \<Rightarrow> nat \<Rightarrow> string"
  requiredRule :: "state \<Rightarrow> nat \<Rightarrow> action list"
  placeholderRule :: "state \<Rightarrow> nat \<Rightarrow> action list"
  errorRule :: "state \<Rightarrow> nat \<Rightarrow> action list"
  dropdownRule :: "state \<Rightarrow> nat \<Rightarrow> action list"
  sliderRule :: "state \<Rightarrow> nat \<Rightarrow> action list"
  regionsRule :: "state \<Rightarrow> action list"
  tablistRule :: "state \<Rightarrow> nat \<Rightarrow> action list"
  dialogRule :: "state \<Rightarrow> nat \<Rightarrow> action list"
  stickyRule :: "state \<Rightarrow> action list"
  positiveTabindex :: "string \<Rightarrow> bool"

definition A11Y_FLAG :: string where
  "A11Y_FLAG = ''data-a11y-flag''"

definition flagged :: "state \<Rightarrow> nat \<Rightarrow> string \<Rightarrow> bool" where
  "flagged s el suffix = (attributes (nodes s el) (A11Y_FLAG @ suffix) = Some ''1'')"

definition buttonSelector :: "simple list" where
  "buttonSelector =
     [Tag ''BUTTON'', AttrEq ''role'' ''button'', HasAttr ''onclick'',
      AttrContains ''class'' ''btn'', AttrContains ''class'' ''button'']"

definition labelButton :: "rules \<Rightarrow> nat \<Rightarrow> state \<Rightarrow> error + state" where
  "labelButton R btn s =
     (if \<not> isElement s btn then Inr s
      else if \<not> isVisible s btn then Inr s
      else if hasAttribute s btn ''aria-label'' \<or> hasAttribute s btn ''aria-labelledby'' then Inr s
      else if \<not> isBlank (innerText (nodes s btn)) then Inr s
      else setAttrTracked btn ''aria-label'' (buttonLabel R s btn) s)"

definition enhanceUnlabeledButtons :: "rules \<Rightarrow> nat option \<Rightarrow> state \<Rightarrow> error + state" where
  "enhanceUnlabeledButtons R root s =
     (if \<not> a11yEnabled s then Inr s
      else forEach (labelButton R) (querySelectorAll buttonSelector root s) s)"

definition labelLink :: "rules \<Rightarrow> nat \<Rightarrow> state \<Rightarrow> error + state" where
  "labelLink R a s =
     (if \<not> isElement s a then Inr s
      else if \<not> isVisible s a then Inr s
      else if hasAttribute s a ''aria-label'' \<or> hasAttribute s a ''aria-labelledby'' then Inr s
      else if \<not> isBlank (innerText (nodes s a)) then Inr s
      else if attributes (nodes s a) ''aria-hidden'' = Some ''true'' then Inr s
      else setAttrTracked a ''aria-label'' (linkLabel R s a) s)"

definition enhanceUnlabeledLinks :: "rules \<Rightarrow> nat option \<Rightarrow> state \<Rightarrow> error + state" where
  "enhanceUnlabeledLinks R root s =
     (if \<not> a11yEnabled s then Inr s
      else forEach (labelLink R) (querySelectorAll [Both (Tag ''A'') (HasAttr ''href'')] root s) s)"

definition enhanceInputsAndForms :: "rules \<Rightarrow> nat option \<Rightarrow> state \<Rightarrow> error + state" where
  "enhanceInputsAndForms R root s =
     (if \<not> a11yEnabled s then Inr s
      else andThen
        (forEach (\<lambda>label s'. performAll (requiredRule R s' label) s')
           (querySelectorAll [Tag ''LABEL''] root s) s)
        (\<lambda>s1. let inputs = querySelectorAll [Tag ''INPUT'', Tag ''TEXTAREA'', Tag ''SELECT''] root s1
              in andThen
                   (forEach (\<lambda>input s'. performAll (placeholderRule R s' input) s') inputs s1)
                   (\<lambda>s2. forEach (\<lambda>input s'. performAll (errorRule R s' input) s') inputs s2)))"

definition makeClickable :: "nat \<Rightarrow> state \<Rightarrow> error + state" where
  "makeClickable el s =
     (if \<not> isVisible s el then Inr s
      else if elementHasOwnAccessibility s el then Inr s
      else if tagName (nodes s el) = ''BUTTON'' \<or> tagName (nodes s el) = ''A'' then Inr s
      else if onclickHandler (nodes s el)
              \<or> (case attributes (nodes s el) ''onclick'' of None \<Rightarrow> False | Some v \<Rightarrow> v \<noteq> [])
              \<or> matches s el [Class ''clickable'', AttrContains ''class'' ''btn'',
                               AttrContains ''class'' ''button'']
      then andThen (setAttrTracked el ''role'' ''button'' s)
             (\<lambda>s1. if \<not> hasAttribute s1 el ''tabindex''
                   then setAttrTracked el ''tabindex'' ''0'' s1 else Inr s1)
      else Inr s)"

definition enhanceClickableRoles :: "rules \<Rightarrow> nat option \<Rightarrow> state \<Rightarrow> error + state" where
  "enhanceClickableRoles R root s =
     (if \<not> a11yEnabled s then Inr s
      else forEach makeClickable (querySelectorAll [Tag ''DIV'', Tag ''SPAN''] root s) s)"

definition dropdownSelector :: "simple list" where
  "dropdownSelector =
     [HasAttr ''data-toggle'', HasAttr ''data-accordion'', Class ''dropdown-toggle'',
      Class ''accordion-title'', Class ''accordion-header'', Class ''faq-question'',
      Class ''collapsible'', Class ''collapse-toggle'', Class ''menu-toggle'',
      Class ''nav-toggle'']"

definition wireDropdown :: "rules \<Rightarrow> nat \<Rightarrow> state \<Rightarrow> error + state" where
  "wireDropdown R toggle s =
     (if flagged s toggle ''-dropdown'' then Inr s
      else andThen (setAttrTracked toggle (A11Y_FLAG @ ''-dropdown'') ''1'' s)
             (\<lambda>s1. performAll (dropdownRule R s1 toggle) s1))"

definition enhanceLocalDropdowns :: "rules \<Rightarrow> nat option \<Rightarrow> state \<Rightarrow> error + state" where
  "enhanceLocalDropdowns R root s =
     (if \<not> a11yEnabled s then Inr s
      else forEach (wireDropdown R) (querySelectorAll dropdownSelector root s) s)"

definition markLiveRegion :: "nat \<Rightarrow> state \<Rightarrow> error + state" where
  "markLiveRegion n s =
     (if \<not> isVisible s n then Inr s
      else if flagged s n ''-live'' then Inr s
      else andThen (setAttrTracked n (A11Y_FLAG @ ''-live'') ''1'' s)
             (\<lambda>s1. if \<not> elementHasOwnAccessibility s1 n
                   then andThen (setAttrTracked n ''role'' ''status'' s1)
                          (\<lambda>s2. setAttrTracked n ''aria-live'' ''polite'' s2)
                   else Inr s1))"

definition enhanceLocalLiveRegions :: "rules \<Rightarrow> nat option \<Rightarrow> state \<Rightarrow> error + state" where
  "enhanceLocalLiveRegions R root s =
     (if \<not> a11yEnabled s then Inr s
      else forEach markLiveRegion
             (querySelectorAll [Class ''toast'', Class ''notification'', Class ''alert'',
                                Class ''snackbar''] root s) s)"

definition wireSlider :: "rules \<Rightarrow> nat \<Rightarrow> state \<Rightarrow> error + state" where
  "wireSlider R slider s =
     (if flagged s slider ''-slider'' then Inr s
      else andThen (setAttrTracked slider (A11Y_FLAG @ ''-slider'') ''1'' s)
             (\<lambda>s1. andThen (setAttrTracked slider ''role'' ''slider'' s1)
               (\<lambda>s2. andThen (if \<not> hasAttribute s2 slider ''tabindex''
                               then setAttrTracked slider ''tabindex'' ''0'' s2 else Inr s2)
                 (\<lambda>s3. performAll (sliderRule R s3 slider) s3))))"

definition enhanceSliders :: "rules \<Rightarrow> nat option \<Rightarrow> state \<Rightarrow> error + state" where
  "enhanceSliders R root s =
     (if \<not> a11yEnabled s then Inr s
      else forEach (wireSlider R)
             (querySelectorAll [Class ''slider'', Class ''range'', HasAttr ''data-slider''] root s) s)"

definition enhanceRegionsGlobal :: "rules \<Rightarrow> state \<Rightarrow> error + state" where
  "enhanceRegionsGlobal R s =
     (if \<not> a11yEnabled s \<or> docBody s = None then Inr s
      else performAll (regionsRule R s) s)"

definition tabListSelector :: "simple list" where
  "tabListSelector =
     [AttrEq ''role'' ''tablist'', Class ''tabs'', Class ''tab-list'', Class ''nav-tabs'',
      Class ''tab-container'']"

definition wireTablist :: "rules \<Rightarrow> nat \<Rightarrow> state \<Rightarrow> error + state" where
  "wireTablist R tablist s =
     (if flagged s tablist ''-tablist'' then Inr s
      else andThen (setAttrTracked tablist (A11Y_FLAG @ ''-tablist'') ''1'' s)
             (\<lambda>s1. performAll (tablistRule R s1 tablist) s1))"

definition enhanceTabsGlobal :: "rules \<Rightarrow> nat option \<Rightarrow> state \<Rightarrow> error + state" where
  "enhanceTabsGlobal R root s =
     (if \<not> a11yEnabled s then Inr s
      else forEach (wireTablist R) (querySelectorAll tabListSelector root s) s)"

definition normalizeTabIndexGlobal :: "rules \<Rightarrow> nat option \<Rightarrow> state \<Rightarrow> error + state" where
  "normalizeTabIndexGlobal R root s =
     (if \<not> a11yEnabled s then Inr s
      else forEach
             (\<lambda>el s'. if (case attributes (nodes s' el) ''tabindex'' of
                            None \<Rightarrow> False | Some v \<Rightarrow> positiveTabindex R v)
                      then setAttrTracked el ''tabindex'' ''0'' s' else Inr s')
             (querySelectorAll [HasAttr ''tabindex''] root s) s)"

definition modalSelector :: "simple list" where
  "modalSelector =
     [Class ''modal'', Class ''dialog'', Class ''popup'', Class ''lightbox'',
      HasAttr ''data-modal'', HasAttr ''data-dialog'']"

definition wireDialog :: "rules \<Rightarrow> nat \<Rightarrow> state \<Rightarrow> error + state" where
  "wireDialog R dialog s =
     (if \<not> isVisible s dialog then Inr s
      else if flagged s dialog ''-dialog'' then Inr s
      else andThen (setAttrTracked dialog (A11Y_FLAG @ ''-dialog'') ''1'' s)
             (\<lambda>s1. performAll (dialogRule R s1 dialog) s1))"

definition enhanceDialogsGlobal :: "rules \<Rightarrow> nat option \<Rightarrow> state \<Rightarrow> error + state" where
  "enhanceDialogsGlobal R root s =
     (if \<not> a11yEnabled s then Inr s
      else forEach (wireDialog R) (querySelectorAll modalSelector root s) s)"

definition enhanceStickyHeadersGlobal :: "rules \<Rightarrow> nat option \<Rightarrow> state \<Rightarrow> error + state" where
  "enhanceStickyHeadersGlobal R root s =
     (if \<not> a11yEnabled s then Inr s
      else performAll (stickyRule R s) s)"

definition digitChar :: "nat \<Rightarrow> char" where
  "digitChar d = ''0123456789'' ! d"

fun showNat :: "nat \<Rightarrow> string" where
  "showNat n = (if n < 10 then [digitChar n] else showNat (n div 10) @ [digitChar (n mod 10)])"

declare showNat.simps [simp del]

definition enhanceInfiniteScrollGlobal :: "nat \<Rightarrow> state \<Rightarrow> error + state" where
  "enhanceInfiniteScrollGlobal addedCount s =
     (if \<not> a11yEnabled s then Inr s
      else if addedCount > 0 then announce (showNat addedCount @ '' more items loaded'') s
      else Inr s)"

subsection \<open>Dispatcher\<close>

definition runLocalEnhancements :: "rules \<Rightarrow> nat option \<Rightarrow> state \<Rightarrow> error + state" where
  "runLocalEnhancements R root s =
     andThen (enhanceUnlabeledButtons R root s) (\<lambda>s1.
     andThen (enhanceUnlabeledLinks R root s1) (\<lambda>s2.
     andThen (enhanceInputsAndForms R root s2) (\<lambda>s3.
     andThen (enhanceClickableRoles R root s3) (\<lambda>s4.
     andThen (enhanceLocalDropdowns R root s4) (\<lambda>s5.
     andThen (enhanceLocalLiveRegions R root s5) (\<lambda>s6.
     enhanceSliders R root s6))))))"

definition runGlobalEnhancements :: "rules \<Rightarrow> nat \<Rightarrow> state \<Rightarrow> error + state" where
  "runGlobalEnhancements R addedCount s =
     andThen (enhanceRegionsGlobal R s) (\<lambda>s1.
     andThen (enhanceTabsGlobal R None s1) (\<lambda>s2.
     andThen (enhanceDialogsGlobal R None s2) (\<lambda>s3.
     andThen (enhanceStickyHeadersGlobal R None s3) (\<lambda>s4.
     andThen (normalizeTabIndexGlobal R None s4) (\<lambda>s5.
     enhanceInfiniteScrollGlobal addedCount s5)))))"

subsection \<open>Scheduler and mutation observer\<close>

text \<open>
  \<open>requestAnimationFrame(cb)\<close> appends the callback to \<open>frameQueue\<close>; \<open>frameCallback\<close>
  is what the browser runs for a queued callback on the next frame.
\<close>

definition scheduleEnhancements :: "nat \<Rightarrow> state \<Rightarrow> state" where
  "scheduleEnhancements count s =
     (let s1 = s\<lparr>pendingItemCount := pendingItemCount s + count\<rparr> in
      if enhancementScheduled s1 then s1
      else s1\<lparr>enhancementScheduled := True, frameQueue := frameQueue s1 @ [GlobalPass]\<rparr>)"

fun frameCallback :: "rules \<Rightarrow> frame \<Rightarrow> state \<Rightarrow> error + state" where
  "frameCallback R (LocalBatch nodesToEnhance) s =
     forEach (\<lambda>n s'. runLocalEnhancements R (Some n) s') nodesToEnhance s"
| "frameCallback R GlobalPass s =
     (let s1 = s\<lparr>enhancementScheduled := False\<rparr> in
      andThen (runGlobalEnhancements R (pendingItemCount s1) s1)
        (\<lambda>s2. Inr (s2\<lparr>pendingItemCount := 0\<rparr>)))"

datatype mutation = ChildList "nat list" | OtherRecord

fun addedNodes :: "mutation \<Rightarrow> nat list" where
  "addedNodes (ChildList ns) = ns"
| "addedNodes OtherRecord = []"

definition itemSelector :: "simple list" where
  "itemSelector =
     [Tag ''LI'', Tag ''ARTICLE'', AttrEq ''role'' ''listitem'', Class ''card'',
      Class ''tweet'', Class ''post'']"

definition observerCallback :: "mutation list \<Rightarrow> state \<Rightarrow> state" where
  "observerCallback mutations s =
     (if \<not> a11yEnabled s then s
      else
        (let nodesToEnhance = filter (isElement s) (concat (map addedNodes mutations));
             addedNodeCount = length (filter (\<lambda>n. matches s n itemSelector) nodesToEnhance);
             s1 = (if nodesToEnhance \<noteq> []
                   then scheduleEnhancements addedNodeCount
                          (s\<lparr>frameQueue := frameQueue s @ [LocalBatch nodesToEnhance]\<rparr>)
                   else s);
             s2 = s1\<lparr>mutationCounter := mutationCounter s1 + 1\<rparr>
         in if mutationCounter s2 \<ge> 80
            then (garbageCollect s2)\<lparr>mutationCounter := 0\<rparr>
            else s2))"

definition startMutationObserver :: "state \<Rightarrow> state" where
  "startMutationObserver s =
     (if \<not> observerSupport s \<or> mutationObserver s \<noteq> None then s
      else if docBody s = None then s
      else s\<lparr>mutationObserver := Some (nextObserver s),
             observing := observing s @ [nextObserver s],
             nextObserver := Suc (nextObserver s)\<rparr>)"

definition stopMutationObserver :: "state \<Rightarrow> state" where
  "stopMutationObserver s =
     (case mutationObserver s of
        None \<Rightarrow> s
      | Some ob \<Rightarrow> s\<lparr>observing := removeAll ob (observing s), mutationObserver := None\<rparr>)"

subsection \<open>Enable and disable\<close>

definition enableA11Y :: "rules \<Rightarrow> state \<Rightarrow> error + state" where
  "enableA11Y R s =
     andThen (addSkipLink (addGlobalStyles s)) (\<lambda>s1.
     andThen (runLocalEnhancements R (docBody s1) s1) (\<lambda>s2.
     andThen (runGlobalEnhancements R 0 s2) (\<lambda>s3.
     Inr (startMutationObserver s3))))"

definition disableA11Y :: "state \<Rightarrow> error + state" where
  "disableA11Y s =
     andThen (clearAllTrackedChanges
                (removeGlobalStyles (removeLiveRegion (removeSkipLink (stopMutationObserver s)))))
       (\<lambda>s1. Inr (s1\<lparr>pendingItemCount := 0, mutationCounter := 0\<rparr>))"

text \<open>The click handler of the toggle button flips \<open>a11yEnabled\<close> and calls one of the two.\<close>

definition toggleClick :: "rules \<Rightarrow> state \<Rightarrow> error + state" where
  "toggleClick R s =
     (let s1 = s\<lparr>a11yEnabled := \<not> a11yEnabled s\<rparr> in
      if a11yEnabled s1 then enableA11Y R s1 else disableA11Y s1)"

text \<open>The variables of the closure as the script initialises them, over a given document.\<close>

definition initialState ::
  "(nat \<Rightarrow> node) \<Rightarrow> nat list \<Rightarrow> nat \<Rightarrow> nat option \<Rightarrow> nat option \<Rightarrow> state" where
  "initialState nds order fresh h b =
     \<lparr>nodes = nds, treeOrder = order, nextNode = fresh, docHead = h, docBody = b,
      changeLog = [], a11yEnabled = False, mutationObserver = None, observing = [],
      nextObserver = 0, observerSupport = True, enhancementScheduled = False,
      skipLinkEl = None, liveRegionEl = None, globalStyleEl = None, mutationCounter = 0,
      pendingItemCount = 0, frameQueue = [], timers = []\<rparr>"

subsection \<open>A sample page\<close>

text \<open>
  A head (node 0) and a body (node 1); in the body one visible, empty
  \<open><div class="clickable">\<close> (node 2); node 3 is a \<open>div\<close> that has been removed from
  the page and node 4 a text node outside it.
\<close>

definition sampleNodes :: "nat \<Rightarrow> node" where
  "sampleNodes =
     (\<lambda>_. blankElement ''DIV'')
       (0 := (blankElement ''HEAD'')\<lparr>isConnected := True\<rparr>,
        1 := (blankElement ''BODY'')\<lparr>isConnected := True, visible := True\<rparr>,
        2 := (blankElement ''DIV'')\<lparr>attributes := [''class'' \<mapsto> ''clickable''],
               ancestors := [1], isConnected := True, visible := True\<rparr>,
        4 := (blankElement ''#text'')\<lparr>nodeType := 3\<rparr>)"

definition samplePage :: state where
  "samplePage = initialState sampleNodes [0, 1, 2, 3, 4] 5 (Some 0) (Some 1)"

definition sampleRules :: rules where
  "sampleRules =
     \<lparr>buttonLabel = (\<lambda>_ _. ''Button''), linkLabel = (\<lambda>_ _. ''Link''),
      requiredRule = (\<lambda>_ _. []), placeholderRule = (\<lambda>_ _. []), errorRule = (\<lambda>_ _. []),
      dropdownRule = (\<lambda>_ _. []), sliderRule = (\<lambda>_ _. []), regionsRule = (\<lambda>_. []),
      tablistRule = (\<lambda>_ _. []), dialogRule = (\<lambda>_ _. []), stickyRule = (\<lambda>_. []),
      positiveTabindex = (\<lambda>_. False)\<rparr>"

subsection \<open>The sample page after the engine was switched on\<close>

text \<open>
  \<open>sampleEnabled\<close> is the sample page after one click on the toggle (node 5 is the style
  sheet, node 6 the skip link); \<open>samplePending\<close> is that page with a global pass for three
  new items scheduled and the toggle clicked again, at the moment \<open>disableA11Y\<close> is called;
  \<open>sampleFirstPass\<close> and \<open>sampleSecondPass\<close> are the sample page after one and after two
  local passes over the body.
\<close>

definition sampleEnabled :: state where
  "sampleEnabled =
     samplePage
       \<lparr>a11yEnabled := True,
        nodes := sampleNodes
          (5 := (blankElement ''STYLE'')\<lparr>attributes := [''id'' \<mapsto> ''a11y-global-style''],
                  textContent := globalStyleText, ancestors := [0], isConnected := True\<rparr>,
           1 := (sampleNodes 1)\<lparr>attributes := [''id'' \<mapsto> ''a11y-main'']\<rparr>,
           6 := (blankElement ''A'')\<lparr>attributes := [''href'' \<mapsto> ''#a11y-main'', ''class'' \<mapsto> ''a11y-skip-link''],
                  textContent := ''Skip to main content'', ancestors := [1], isConnected := True\<rparr>,
           2 := (sampleNodes 2)\<lparr>attributes := [''class'' \<mapsto> ''clickable'', ''role'' \<mapsto> ''button'', ''tabindex'' \<mapsto> ''0'']\<rparr>),
        treeOrder := [0, 5, 1, 6, 2, 3, 4],
        nextNode := 7,
        changeLog := [(1, \<lparr>attrs = [(''id'', None)], styles = []\<rparr>),
                      (2, \<lparr>attrs = [(''role'', None), (''tabindex'', None)], styles = []\<rparr>)],
        globalStyleEl := Some 5, skipLinkEl := Some 6,
        mutationObserver := Some 0, observing := [0], nextObserver := 1\<rparr>"

definition samplePending :: state where
  "samplePending = (scheduleEnhancements 3 sampleEnabled)\<lparr>a11yEnabled := False\<rparr>"

definition sampleFirstPass :: state where
  "sampleFirstPass =
     samplePage
       \<lparr>a11yEnabled := True,
        nodes := sampleNodes
          (2 := (sampleNodes 2)\<lparr>attributes := [''class'' \<mapsto> ''clickable'', ''role'' \<mapsto> ''button'', ''tabindex'' \<mapsto> ''0'']\<rparr>),
        changeLog := [(2, \<lparr>attrs = [(''role'', None), (''tabindex'', None)], styles = []\<rparr>)]\<rparr>"

definition sampleSecondPass :: state where
  "sampleSecondPass =
     samplePage
       \<lparr>a11yEnabled := True,
        nodes := sampleNodes
          (2 := (sampleNodes 2)\<lparr>attributes := [''class'' \<mapsto> ''clickable'', ''role'' \<mapsto> ''button'',
                    ''tabindex'' \<mapsto> ''0'', ''aria-label'' \<mapsto> ''Button'']\<rparr>),
        changeLog := [(2, \<lparr>attrs = [(''role'', None), (''tabindex'', None), (''aria-label'', None)],
                           styles = []\<rparr>)]\<rparr>"

subsection \<open>What a step leaves alone\<close>

text \<open>
  Three relations used to state what the rules cannot change. \<open>sameTree\<close>: two versions
  of a node differ at most in attributes and inline style. \<open>schedStep\<close>: the scheduler and
  lifecycle variables are the same. \<open>ledgerStep\<close>: nothing but the change log and the
  attributes and styles of nodes has changed.
\<close>

definition sameTree :: "node \<Rightarrow> node \<Rightarrow> bool" where
  "sameTree nd nd' =
     (nodeType nd' = nodeType nd \<and> tagName nd' = tagName nd \<and> ancestors nd' = ancestors nd
      \<and> isConnected nd' = isConnected nd \<and> innerText nd' = innerText nd
      \<and> textContent nd' = textContent nd \<and> visible nd' = visible nd
      \<and> onclickHandler nd' = onclickHandler nd)"

definition schedStep :: "state \<Rightarrow> state \<Rightarrow> bool" where
  "schedStep s s' =
     (enhancementScheduled s' = enhancementScheduled s
      \<and> pendingItemCount s' = pendingItemCount s
      \<and> frameQueue s' = frameQueue s
      \<and> a11yEnabled s' = a11yEnabled s
      \<and> mutationCounter s' = mutationCounter s
      \<and> mutationObserver s' = mutationObserver s
      \<and> observing s' = observing s
      \<and> nextObserver s' = nextObserver s
      \<and> observerSupport s' = observerSupport s
      \<and> docHead s' = docHead s
      \<and> docBody s' = docBody s
      \<and> skipLinkEl s' = skipLinkEl s
      \<and> globalStyleEl s' = globalStyleEl s)"

definition ledgerStep :: "state \<Rightarrow> state \<Rightarrow> bool" where
  "ledgerStep s s' =
     (schedStep s s'
      \<and> treeOrder s' = treeOrder s \<and> nextNode s' = nextNode s
      \<and> liveRegionEl s' = liveRegionEl s \<and> timers s' = timers s
      \<and> (\<forall>n. sameTree (nodes s n) (nodes s' n)))"

text \<open>
  \<open>guardsHold\<close>: the early-return tests of \<open>addGlobalStyles\<close>, \<open>addSkipLink\<close> and
  \<open>startMutationObserver\<close> all succeed, which is the state a call of \<open>enableA11Y\<close> leaves.
\<close>

definition guardsHold :: "state \<Rightarrow> bool" where
  "guardsHold s =
     ((globalStyleEl s \<noteq> None \<or> \<not> a11yEnabled s \<or> docHead s = None)
      \<and> (\<not> a11yEnabled s \<or> docBody s = None
           \<or> (case skipLinkEl s of None \<Rightarrow> False | Some k \<Rightarrow> parentNode s k \<noteq> None))
      \<and> (\<not> observerSupport s \<or> mutationObserver s \<noteq> None \<or> docBody s = None))"

section \<open>Properties of the ledger\<close>










lemma forEach_restoreAttr:
  "isElement s el \<Longrightarrow>
   forEach (restoreAttr el) xs s =
     Inr (s\<lparr>nodes := (nodes s)(el := (nodes s el)\<lparr>attributes :=
            fold (\<lambda>kv m. m(fst kv := snd kv)) xs (attributes (nodes s el))\<rparr>)\<rparr>)"
proof (induction xs arbitrary: s)
  case Nil
  then show ?case by simp
next
  case (Cons x xs)
  let ?s1 = "s\<lparr>nodes := (nodes s)(el := (nodes s el)\<lparr>attributes := (attributes (nodes s el))(fst x := snd x)\<rparr>)\<rparr>"
  have step: "restoreAttr el x s = Inr ?s1"
    using Cons.prems by (cases "snd x") (simp_all add: restoreAttr_def removeAttribute_def setAttribute_def)
  have el1: "isElement ?s1 el" using Cons.prems by (simp add: isElement_def)
  show ?case by (simp add: step Cons.IH [OF el1] fun_eq_iff)
qed

lemma forEach_restoreStyle:
  "isElement s el \<Longrightarrow>
   forEach (restoreStyle el) xs s =
     Inr (s\<lparr>nodes := (nodes s)(el := (nodes s el)\<lparr>style :=
            fold (\<lambda>kv m. m(fst kv := snd kv)) xs (style (nodes s el))\<rparr>)\<rparr>)"
proof (induction xs arbitrary: s)
  case Nil
  then show ?case by simp
next
  case (Cons x xs)
  let ?s1 = "s\<lparr>nodes := (nodes s)(el := (nodes s el)\<lparr>style := (style (nodes s el))(fst x := snd x)\<rparr>)\<rparr>"
  have step: "restoreStyle el x s = Inr ?s1"
    using Cons.prems by (simp add: restoreStyle_def setStyle_def)
  have el1: "isElement ?s1 el" using Cons.prems by (simp add: isElement_def)
  show ?case by (simp add: step Cons.IH [OF el1] fun_eq_iff)
qed
















lemma getEntry_nodes: "getEntry (s\<lparr>nodes := f\<rparr>) el = getEntry s el"
  by (simp add: getEntry_def)







lemma captured_nodes: "captured (s\<lparr>nodes := f\<rparr>) el k = captured s el k"
  by (cases k) (simp_all add: capturedAttr_def capturedStyle_def getEntry_nodes)













lemma restoreEntry_shape: "\<exists>nd. restoreEntry p s = Inr (s\<lparr>nodes := (nodes s)(fst p := nd)\<rparr>)"
proof (cases "isElement s (fst p)")
  case False
  have "s\<lparr>nodes := (nodes s)(fst p := nodes s (fst p))\<rparr> = s" by simp
  with False show ?thesis by (metis restoreEntry_def)
next
  case True
  let ?s1 = "s\<lparr>nodes := (nodes s)(fst p := (nodes s (fst p))\<lparr>attributes :=
            fold (\<lambda>kv m. m(fst kv := snd kv)) (attrs (snd p)) (attributes (nodes s (fst p)))\<rparr>)\<rparr>"
  have el1: "isElement ?s1 (fst p)" using True by (simp add: isElement_def)
  have a: "forEach (restoreAttr (fst p)) (attrs (snd p)) s = Inr ?s1"
    using True by (rule forEach_restoreAttr)
  have "restoreEntry p s = forEach (restoreStyle (fst p)) (styles (snd p)) ?s1"
    using True by (simp only: restoreEntry_def a) simp
  also have "\<dots> = Inr (?s1\<lparr>nodes := (nodes ?s1)(fst p := (nodes ?s1 (fst p))\<lparr>style :=
            fold (\<lambda>kv m. m(fst kv := snd kv)) (styles (snd p)) (style (nodes ?s1 (fst p)))\<rparr>)\<rparr>)"
    using el1 by (rule forEach_restoreStyle)
  finally have "restoreEntry p s = Inr (s\<lparr>nodes := (nodes s)(fst p := (nodes s (fst p))\<lparr>attributes :=
            fold (\<lambda>kv m. m(fst kv := snd kv)) (attrs (snd p)) (attributes (nodes s (fst p))),
            style := fold (\<lambda>kv m. m(fst kv := snd kv)) (styles (snd p)) (style (nodes s (fst p)))\<rparr>)\<rparr>)"
    by simp
  then show ?thesis by (rule exI)
qed

lemma forEach_restoreEntry_shape:
  "\<exists>f. forEach restoreEntry log s = Inr (s\<lparr>nodes := f\<rparr>) \<and> (\<forall>n. n \<notin> fst ` set log \<longrightarrow> f n = nodes s n)"
proof (induction log arbitrary: s)
  case Nil
  have "s\<lparr>nodes := nodes s\<rparr> = s" by simp
  then show ?case by (metis forEach.simps(1))
next
  case (Cons p log)
  obtain nd where p: "restoreEntry p s = Inr (s\<lparr>nodes := (nodes s)(fst p := nd)\<rparr>)"
    using restoreEntry_shape by blast
  let ?s1 = "s\<lparr>nodes := (nodes s)(fst p := nd)\<rparr>"
  obtain f where f: "forEach restoreEntry log ?s1 = Inr (?s1\<lparr>nodes := f\<rparr>)"
    and fr: "\<forall>n. n \<notin> fst ` set log \<longrightarrow> f n = nodes ?s1 n"
    using Cons.IH by blast
  have "forEach restoreEntry (p # log) s = Inr (s\<lparr>nodes := f\<rparr>)" by (simp add: p f)
  moreover have "\<forall>n. n \<notin> fst ` set (p # log) \<longrightarrow> f n = nodes s n" using fr by simp
  ultimately show ?case by blast
qed

lemma clearAll_shape:
  "\<exists>f. clearAllTrackedChanges s = Inr (s\<lparr>nodes := f, changeLog := []\<rparr>) \<and>
       (\<forall>n. n \<notin> fst ` set (changeLog s) \<longrightarrow> f n = nodes s n)"
proof -
  obtain f where f: "forEach restoreEntry (changeLog s) s = Inr (s\<lparr>nodes := f\<rparr>)"
    and fr: "\<forall>n. n \<notin> fst ` set (changeLog s) \<longrightarrow> f n = nodes s n"
    using forEach_restoreEntry_shape by blast
  have "clearAllTrackedChanges s = Inr (s\<lparr>nodes := f, changeLog := []\<rparr>)"
    by (simp add: clearAllTrackedChanges_def f)
  with fr show ?thesis by blast
qed

lemma gc_fold:
  "fold (\<lambda>el log. if P el then AList.delete el log else log) ks log
     = filter (\<lambda>p. \<not> (fst p \<in> set ks \<and> P (fst p))) log"
proof (induction ks arbitrary: log)
  case Nil
  then show ?case by simp
next
  case (Cons k ks)
  show ?case
    by (auto simp: Cons.IH AList.delete_eq intro!: filter_cong)
qed

lemma garbageCollect_filter:
  "changeLog (garbageCollect s) = filter (\<lambda>p. isConnected (nodes s (fst p))) (changeLog s)"
  by (simp add: garbageCollect_def gc_fold) (rule filter_cong, auto)

lemma garbageCollect_frame: "garbageCollect s = s\<lparr>changeLog := changeLog (garbageCollect s)\<rparr>"
  by (simp add: garbageCollect_def)



lemmas eval_defs =
  samplePage_def sampleNodes_def initialState_def blankElement_def runWrites_def
  setAttrTracked_def removeAttrTracked_def setStyleTracked_def captureAttr_def
  ensureEntry_def recordAttr_def recordStyle_def getEntry_def emptyEntry_def
  hasOwnProperty_def readAttribute_def setAttribute_def removeAttribute_def
  readStyle_def setStyle_def isElement_def orEmpty_def captureStyle_def
  capturedAttr_def capturedStyle_def





text \<open>
  Claim C6 (garbage collection). \<open>garbageCollect\<close> keeps exactly the entries of connected
  nodes: no entry of a node that is not connected remains, every remaining entry is for a
  connected node, and \<open>clearAllTrackedChanges\<close> afterwards returns without an exception.
\<close>

theorem gc_correct:
  "changeLog (garbageCollect s) = filter (\<lambda>p. isConnected (nodes s (fst p))) (changeLog s)
   \<and> (\<forall>el. \<not> isConnected (nodes s el) \<longrightarrow> map_of (changeLog (garbageCollect s)) el = None)
   \<and> (\<forall>p \<in> set (changeLog (garbageCollect s)). isConnected (nodes (garbageCollect s) (fst p)))
   \<and> (\<exists>s'. clearAllTrackedChanges (garbageCollect s) = Inr s')"
proof -
  have f: "changeLog (garbageCollect s) = filter (\<lambda>p. isConnected (nodes s (fst p))) (changeLog s)"
    by (rule garbageCollect_filter)
  have a: "\<forall>el. \<not> isConnected (nodes s el) \<longrightarrow> map_of (changeLog (garbageCollect s)) el = None"
    by (auto simp: f map_of_eq_None_iff)
  have ic: "\<And>el. isConnected (nodes (garbageCollect s) el) = isConnected (nodes s el)"
    by (simp add: garbageCollect_def)
  have b: "\<forall>p \<in> set (changeLog (garbageCollect s)). isConnected (nodes (garbageCollect s) (fst p))"
    by (simp add: ic f)
  have c: "\<exists>s'. clearAllTrackedChanges (garbageCollect s) = Inr s'"
    using clearAll_shape [of "garbageCollect s"] by blast
  from f a b c show ?thesis by blast
qed








text \<open>
  Claim C10 (garbage collection writes nothing). \<open>garbageCollect\<close> changes the change log
  and nothing else: every node keeps its attributes and styles. The entry of a node that
  is not connected is dropped with the originals it held, so a later
  \<open>clearAllTrackedChanges\<close> leaves that node as the tracked writes made it.
\<close>

theorem gc_no_dom_writes:
  "nodes (garbageCollect s) = nodes s
   \<and> garbageCollect s = s\<lparr>changeLog := changeLog (garbageCollect s)\<rparr>
   \<and> (\<not> isConnected (nodes s el) \<longrightarrow>
        map_of (changeLog (garbageCollect s)) el = None
        \<and> (\<exists>s'. clearAllTrackedChanges (garbageCollect s) = Inr s' \<and> nodes s' el = nodes s el))"
proof -
  have n: "nodes (garbageCollect s) = nodes s" by (simp add: garbageCollect_def)
  have fr: "garbageCollect s = s\<lparr>changeLog := changeLog (garbageCollect s)\<rparr>"
    by (rule garbageCollect_frame)
  have d: "\<not> isConnected (nodes s el) \<longrightarrow>
        map_of (changeLog (garbageCollect s)) el = None
        \<and> (\<exists>s'. clearAllTrackedChanges (garbageCollect s) = Inr s' \<and> nodes s' el = nodes s el)"
  proof
    assume dis: "\<not> isConnected (nodes s el)"
    have notin: "el \<notin> fst ` set (changeLog (garbageCollect s))"
      using dis by (auto simp: garbageCollect_filter)
    then have m: "map_of (changeLog (garbageCollect s)) el = None"
      by (simp add: map_of_eq_None_iff)
    obtain f where c: "clearAllTrackedChanges (garbageCollect s)
          = Inr ((garbageCollect s)\<lparr>nodes := f, changeLog := []\<rparr>)"
      and fr: "\<forall>n. n \<notin> fst ` set (changeLog (garbageCollect s)) \<longrightarrow> f n = nodes (garbageCollect s) n"
      using clearAll_shape by blast
    from fr notin have "f el = nodes s el" by (simp add: n)
    with c m show "map_of (changeLog (garbageCollect s)) el = None
        \<and> (\<exists>s'. clearAllTrackedChanges (garbageCollect s) = Inr s' \<and> nodes s' el = nodes s el)"
      by simp
  qed
  from n fr d show ?thesis by blast
qed

lemma sample_detached_write:
  "setAttrTracked 3 ''role'' ''button'' samplePage =
     Inr (samplePage\<lparr>nodes := (nodes samplePage)(3 := (nodes samplePage 3)\<lparr>attributes := [''role'' \<mapsto> ''button'']\<rparr>),
            changeLog := [(3, \<lparr>attrs = [(''role'', None)], styles = []\<rparr>)]\<rparr>)"
  by (simp add: eval_defs)

theorem gc_no_dom_writes_witness:
  "\<exists>s s'. setAttrTracked 3 ''role'' ''button'' samplePage = Inr s
     \<and> \<not> isConnected (nodes s 3)
     \<and> capturedAttr s 3 ''role'' = Some None
     \<and> map_of (changeLog (garbageCollect s)) 3 = None
     \<and> clearAllTrackedChanges (garbageCollect s) = Inr s'
     \<and> attributes (nodes s' 3) ''role'' = Some ''button''"
proof -
  let ?s = "samplePage\<lparr>nodes := (nodes samplePage)(3 := (nodes samplePage 3)\<lparr>attributes := [''role'' \<mapsto> ''button'']\<rparr>),
            changeLog := [(3, \<lparr>attrs = [(''role'', None)], styles = []\<rparr>)]\<rparr>"
  have d: "\<not> isConnected (nodes ?s 3)" by (simp add: eval_defs)
  have cap: "capturedAttr ?s 3 ''role'' = Some None" by (simp add: eval_defs)
  have at: "attributes (nodes ?s 3) ''role'' = Some ''button''" by simp
  from d gc_no_dom_writes [of ?s 3]
  obtain s' where "map_of (changeLog (garbageCollect ?s)) 3 = None"
    and "clearAllTrackedChanges (garbageCollect ?s) = Inr s'" and "nodes s' 3 = nodes ?s 3"
    by blast
  with sample_detached_write d cap at show ?thesis by metis
qed

theorem gc_correct_witness:
  "\<exists>s. runWrites [SetAttr 2 ''role'' ''button'', SetAttr 3 ''role'' ''button''] samplePage = Inr s
     \<and> map (\<lambda>p. fst p) (changeLog s) = [2, 3]
     \<and> isConnected (nodes s 2) \<and> \<not> isConnected (nodes s 3)
     \<and> map (\<lambda>p. fst p) (changeLog (garbageCollect s)) = [2]
     \<and> map_of (changeLog (garbageCollect s)) 3 = None
     \<and> (\<exists>s'. clearAllTrackedChanges (garbageCollect s) = Inr s')"
proof -
  let ?ws = "[SetAttr 2 ''role'' ''button'', SetAttr 3 ''role'' ''button'']"
  let ?s = "projr (runWrites ?ws samplePage)"
  have r: "runWrites ?ws samplePage = Inr ?s" by (simp add: eval_defs)
  have k: "map (\<lambda>p. fst p) (changeLog ?s) = [2, 3]" by (simp add: eval_defs)
  have c2: "isConnected (nodes ?s 2)" by (simp add: eval_defs)
  have c3: "\<not> isConnected (nodes ?s 3)" by (simp add: eval_defs)
  have g: "map (\<lambda>p. fst p) (changeLog (garbageCollect ?s)) = [2]"
    using gc_correct [of ?s] k c2 c3 by (simp add: eval_defs)
  from c3 gc_correct [of ?s] have m: "map_of (changeLog (garbageCollect ?s)) 3 = None" by blast
  from gc_correct [of ?s] obtain s' where e: "clearAllTrackedChanges (garbageCollect ?s) = Inr s'" by blast
  show ?thesis
  proof (intro exI conjI)
    show "runWrites ?ws samplePage = Inr ?s" by (rule r)
    show "map (\<lambda>p. fst p) (changeLog ?s) = [2, 3]" by (rule k)
    show "isConnected (nodes ?s 2)" by (rule c2)
    show "\<not> isConnected (nodes ?s 3)" by (rule c3)
    show "map (\<lambda>p. fst p) (changeLog (garbageCollect ?s)) = [2]" by (rule g)
    show "map_of (changeLog (garbageCollect ?s)) 3 = None" by (rule m)
    show "clearAllTrackedChanges (garbageCollect ?s) = Inr s'" by (rule e)
  qed
qed

section \<open>Properties of the dispatcher, the scheduler and the lifecycle\<close>

lemma sameTree_refl: "sameTree nd nd"
  by (simp add: sameTree_def)

lemma sameTree_trans: "sameTree a b \<Longrightarrow> sameTree b c \<Longrightarrow> sameTree a c"
  by (simp add: sameTree_def)

lemma schedStep_refl: "schedStep s s"
  by (simp add: schedStep_def)

lemma schedStep_trans: "schedStep a b \<Longrightarrow> schedStep b c \<Longrightarrow> schedStep a c"
  by (simp add: schedStep_def)

lemma ledgerStep_refl: "ledgerStep s s"
  by (simp add: ledgerStep_def sameTree_refl schedStep_refl)

lemma ledgerStep_trans: "ledgerStep a b \<Longrightarrow> ledgerStep b c \<Longrightarrow> ledgerStep a c"
  unfolding ledgerStep_def by (auto intro: sameTree_trans schedStep_trans)


lemma andThen_Inr: "(andThen r f = Inr y) = (\<exists>x. r = Inr x \<and> f x = Inr y)"
  by (cases r) (simp_all add: andThen_def)

lemma captureAttr_frame: "captureAttr el a s = Inr s1 \<Longrightarrow> ledgerStep s s1"
  by (auto simp: captureAttr_def Let_def ensureEntry_def recordAttr_def readAttribute_def
        ledgerStep_def schedStep_def sameTree_refl split: if_splits)

lemma captureStyle_frame: "captureStyle el p s = Inr s1 \<Longrightarrow> ledgerStep s s1"
  by (auto simp: captureStyle_def Let_def ensureEntry_def recordStyle_def readStyle_def
        ledgerStep_def schedStep_def sameTree_refl split: if_splits)

lemma changeLog_only_ledgerStep: "s1 = s\<lparr>changeLog := c\<rparr> \<Longrightarrow> ledgerStep s s1"
  by (simp add: ledgerStep_def schedStep_def sameTree_refl)

lemma setAttribute_ledgerStep: "setAttribute el a v s = Inr s' \<Longrightarrow> ledgerStep s s'"
  by (auto simp: setAttribute_def ledgerStep_def schedStep_def sameTree_def split: if_splits)

lemma removeAttribute_ledgerStep: "removeAttribute el a s = Inr s' \<Longrightarrow> ledgerStep s s'"
  by (auto simp: removeAttribute_def ledgerStep_def schedStep_def sameTree_def split: if_splits)

lemma setStyle_ledgerStep: "setStyle el p v s = Inr s' \<Longrightarrow> ledgerStep s s'"
  by (auto simp: setStyle_def ledgerStep_def schedStep_def sameTree_def split: if_splits)

lemma setAttrTracked_ledgerStep: "setAttrTracked el a v s = Inr s' \<Longrightarrow> ledgerStep s s'"
  by (auto simp: setAttrTracked_def split: sum.splits
      intro: ledgerStep_trans [OF captureAttr_frame setAttribute_ledgerStep])

lemma removeAttrTracked_ledgerStep: "removeAttrTracked el a s = Inr s' \<Longrightarrow> ledgerStep s s'"
  by (auto simp: removeAttrTracked_def split: sum.splits
      intro: ledgerStep_trans [OF captureAttr_frame removeAttribute_ledgerStep])

lemma setStyleTracked_ledgerStep: "setStyleTracked el p v s = Inr s' \<Longrightarrow> ledgerStep s s'"
  by (auto simp: setStyleTracked_def split: sum.splits
      intro: ledgerStep_trans [OF captureStyle_frame setStyle_ledgerStep])

lemma trackedWrite_ledgerStep: "trackedWrite w s = Inr s' \<Longrightarrow> ledgerStep s s'"
  by (cases w) (auto intro: setAttrTracked_ledgerStep removeAttrTracked_ledgerStep setStyleTracked_ledgerStep)

lemma perform_ledgerStep: "perform a s = Inr s' \<Longrightarrow> ledgerStep s s'"
  by (cases a) (auto intro: trackedWrite_ledgerStep captureStyle_frame)

lemma forEach_ledgerStep:
  assumes step: "\<And>x s s'. f x s = Inr s' \<Longrightarrow> ledgerStep s s'"
  shows "forEach f xs s = Inr s' \<Longrightarrow> ledgerStep s s'"
proof (induction xs arbitrary: s)
  case Nil
  then show ?case by (simp add: ledgerStep_refl)
next
  case (Cons x xs)
  from Cons.prems obtain s1 where a: "f x s = Inr s1" and b: "forEach f xs s1 = Inr s'"
    by (auto split: sum.splits)
  from step [OF a] Cons.IH [OF b] show ?case by (rule ledgerStep_trans)
qed

lemma performAll_ledgerStep: "performAll acts s = Inr s' \<Longrightarrow> ledgerStep s s'"
  unfolding performAll_def by (rule forEach_ledgerStep [of perform, OF perform_ledgerStep])

lemma clearAll_ledgerStep: "clearAllTrackedChanges s = Inr s' \<Longrightarrow> ledgerStep s s'"
proof -
  assume c: "clearAllTrackedChanges s = Inr s'"
  have re: "\<And>p s s'. restoreEntry p s = Inr s' \<Longrightarrow> ledgerStep s s'"
  proof -
    fix p s s' assume r: "restoreEntry p s = Inr s'"
    have a: "\<And>kv s s'. restoreAttr (fst p) kv s = Inr s' \<Longrightarrow> ledgerStep s s'"
      by (auto simp: restoreAttr_def split: option.splits
          intro: setAttribute_ledgerStep removeAttribute_ledgerStep)
    have b: "\<And>kv s s'. restoreStyle (fst p) kv s = Inr s' \<Longrightarrow> ledgerStep s s'"
      by (auto simp: restoreStyle_def intro: setStyle_ledgerStep)
    show "ledgerStep s s'"
    proof (cases "isElement s (fst p)")
      case False
      with r show ?thesis by (simp add: restoreEntry_def ledgerStep_refl)
    next
      case True
      with r obtain s1 where x: "forEach (restoreAttr (fst p)) (attrs (snd p)) s = Inr s1"
        and y: "forEach (restoreStyle (fst p)) (styles (snd p)) s1 = Inr s'"
        by (auto simp: restoreEntry_def split: sum.splits)
      from forEach_ledgerStep [of "restoreAttr (fst p)", OF a x]
           forEach_ledgerStep [of "restoreStyle (fst p)", OF b y]
      show ?thesis by (rule ledgerStep_trans)
    qed
  qed
  from c obtain s1 where f: "forEach restoreEntry (changeLog s) s = Inr s1"
    and e: "s' = s1\<lparr>changeLog := []\<rparr>"
    by (auto simp: clearAllTrackedChanges_def split: sum.splits)
  have "ledgerStep s s1" by (rule forEach_ledgerStep [of restoreEntry, OF re f])
  moreover have "ledgerStep s1 s'" by (rule changeLog_only_ledgerStep) (simp add: e)
  ultimately show ?thesis by (rule ledgerStep_trans)
qed

lemma labelButton_ledgerStep: "labelButton R btn s = Inr s' \<Longrightarrow> ledgerStep s s'"
  by (auto simp: labelButton_def split: if_splits intro: ledgerStep_refl setAttrTracked_ledgerStep)

lemma labelLink_ledgerStep: "labelLink R a s = Inr s' \<Longrightarrow> ledgerStep s s'"
  by (auto simp: labelLink_def split: if_splits intro: ledgerStep_refl setAttrTracked_ledgerStep)

lemma guarded_write_ledgerStep:
  "(if c then setAttrTracked el a v s else Inr s) = Inr s' \<Longrightarrow> ledgerStep s s'"
  by (auto split: if_splits intro: ledgerStep_refl setAttrTracked_ledgerStep)

lemma makeClickable_ledgerStep: "makeClickable el s = Inr s' \<Longrightarrow> ledgerStep s s'"
proof -
  assume m: "makeClickable el s = Inr s'"
  show ?thesis
  proof (cases "s' = s")
    case True
    then show ?thesis by (simp add: ledgerStep_refl)
  next
    case False
    with m obtain s1 where a: "setAttrTracked el ''role'' ''button'' s = Inr s1"
      and b: "(if \<not> hasAttribute s1 el ''tabindex''
               then setAttrTracked el ''tabindex'' ''0'' s1 else Inr s1) = Inr s'"
      by (auto simp: makeClickable_def andThen_Inr split: if_splits)
    from setAttrTracked_ledgerStep [OF a] guarded_write_ledgerStep [OF b]
    show ?thesis by (rule ledgerStep_trans)
  qed
qed

lemma flag_then_rule_ledgerStep:
  "andThen (setAttrTracked el a v s) (\<lambda>s1. performAll (body s1) s1) = Inr s' \<Longrightarrow> ledgerStep s s'"
proof -
  assume "andThen (setAttrTracked el a v s) (\<lambda>s1. performAll (body s1) s1) = Inr s'"
  then obtain s1 where a: "setAttrTracked el a v s = Inr s1" and b: "performAll (body s1) s1 = Inr s'"
    by (auto simp: andThen_Inr)
  from setAttrTracked_ledgerStep [OF a] performAll_ledgerStep [OF b]
  show ?thesis by (rule ledgerStep_trans)
qed

lemma wireDropdown_ledgerStep: "wireDropdown R el s = Inr s' \<Longrightarrow> ledgerStep s s'"
  by (auto simp: wireDropdown_def split: if_splits
      intro: ledgerStep_refl flag_then_rule_ledgerStep)

lemma wireTablist_ledgerStep: "wireTablist R el s = Inr s' \<Longrightarrow> ledgerStep s s'"
  by (auto simp: wireTablist_def split: if_splits
      intro: ledgerStep_refl flag_then_rule_ledgerStep)

lemma wireDialog_ledgerStep: "wireDialog R el s = Inr s' \<Longrightarrow> ledgerStep s s'"
  by (auto simp: wireDialog_def split: if_splits
      intro: ledgerStep_refl flag_then_rule_ledgerStep)

lemma markLiveRegion_ledgerStep: "markLiveRegion n s = Inr s' \<Longrightarrow> ledgerStep s s'"
proof -
  assume m: "markLiveRegion n s = Inr s'"
  show ?thesis
  proof (cases "s' = s")
    case True
    then show ?thesis by (simp add: ledgerStep_refl)
  next
    case False
    with m obtain s1 where a: "setAttrTracked n (A11Y_FLAG @ ''-live'') ''1'' s = Inr s1"
      and b: "(if \<not> elementHasOwnAccessibility s1 n
               then andThen (setAttrTracked n ''role'' ''status'' s1)
                      (\<lambda>s2. setAttrTracked n ''aria-live'' ''polite'' s2)
               else Inr s1) = Inr s'"
      by (auto simp: markLiveRegion_def andThen_Inr split: if_splits)
    have "ledgerStep s1 s'"
    proof (cases "elementHasOwnAccessibility s1 n")
      case True
      with b show ?thesis by (simp add: ledgerStep_refl)
    next
      case False
      with b obtain s2 where c: "setAttrTracked n ''role'' ''status'' s1 = Inr s2"
        and d: "setAttrTracked n ''aria-live'' ''polite'' s2 = Inr s'"
        by (auto simp: andThen_Inr)
      from setAttrTracked_ledgerStep [OF c] setAttrTracked_ledgerStep [OF d]
      show ?thesis by (rule ledgerStep_trans)
    qed
    with setAttrTracked_ledgerStep [OF a] show ?thesis by (rule ledgerStep_trans)
  qed
qed

lemma wireSlider_ledgerStep: "wireSlider R el s = Inr s' \<Longrightarrow> ledgerStep s s'"
proof (cases "flagged s el ''-slider''")
  case True
  assume "wireSlider R el s = Inr s'"
  with True show ?thesis by (simp add: wireSlider_def ledgerStep_refl)
next
  case False
  assume "wireSlider R el s = Inr s'"
  with False obtain s1 s2 s3 where a: "setAttrTracked el (A11Y_FLAG @ ''-slider'') ''1'' s = Inr s1"
    and b: "setAttrTracked el ''role'' ''slider'' s1 = Inr s2"
    and c: "(if \<not> hasAttribute s2 el ''tabindex''
             then setAttrTracked el ''tabindex'' ''0'' s2 else Inr s2) = Inr s3"
    and d: "performAll (sliderRule R s3 el) s3 = Inr s'"
    by (auto simp: wireSlider_def andThen_Inr)
  have "ledgerStep s s2"
    using setAttrTracked_ledgerStep [OF a] setAttrTracked_ledgerStep [OF b] by (rule ledgerStep_trans)
  moreover have "ledgerStep s2 s'"
    using guarded_write_ledgerStep [OF c] performAll_ledgerStep [OF d] by (rule ledgerStep_trans)
  ultimately show ?thesis by (rule ledgerStep_trans)
qed

lemma rule_body_ledgerStep:
  "forEach (\<lambda>el s'. performAll (body s' el) s') xs s = Inr s' \<Longrightarrow> ledgerStep s s'"
  by (rule forEach_ledgerStep [of "\<lambda>el s'. performAll (body s' el) s'"])
     (auto intro: performAll_ledgerStep)

lemma enhanceUnlabeledButtons_ledgerStep:
  "enhanceUnlabeledButtons R root s = Inr s' \<Longrightarrow> ledgerStep s s'"
  by (auto simp: enhanceUnlabeledButtons_def split: if_splits
      intro: ledgerStep_refl forEach_ledgerStep [of "labelButton R", OF labelButton_ledgerStep])

lemma enhanceUnlabeledLinks_ledgerStep:
  "enhanceUnlabeledLinks R root s = Inr s' \<Longrightarrow> ledgerStep s s'"
  by (auto simp: enhanceUnlabeledLinks_def split: if_splits
      intro: ledgerStep_refl forEach_ledgerStep [of "labelLink R", OF labelLink_ledgerStep])

lemma enhanceInputsAndForms_ledgerStep:
  "enhanceInputsAndForms R root s = Inr s' \<Longrightarrow> ledgerStep s s'"
proof (cases "a11yEnabled s")
  case False
  assume "enhanceInputsAndForms R root s = Inr s'"
  with False show ?thesis by (simp add: enhanceInputsAndForms_def ledgerStep_refl)
next
  case True
  assume "enhanceInputsAndForms R root s = Inr s'"
  with True obtain s1 s2 xs ys where
    a: "forEach (\<lambda>label s'. performAll (requiredRule R s' label) s') xs s = Inr s1"
    and b: "forEach (\<lambda>input s'. performAll (placeholderRule R s' input) s') ys s1 = Inr s2"
    and c: "forEach (\<lambda>input s'. performAll (errorRule R s' input) s') ys s2 = Inr s'"
    by (auto simp: enhanceInputsAndForms_def andThen_Inr Let_def)
  have "ledgerStep s s2"
    using rule_body_ledgerStep [OF a] rule_body_ledgerStep [OF b] by (rule ledgerStep_trans)
  then show ?thesis using rule_body_ledgerStep [OF c] by (rule ledgerStep_trans)
qed

lemma enhanceClickableRoles_ledgerStep:
  "enhanceClickableRoles R root s = Inr s' \<Longrightarrow> ledgerStep s s'"
  by (auto simp: enhanceClickableRoles_def split: if_splits
      intro: ledgerStep_refl forEach_ledgerStep [of makeClickable, OF makeClickable_ledgerStep])

lemma enhanceLocalDropdowns_ledgerStep:
  "enhanceLocalDropdowns R root s = Inr s' \<Longrightarrow> ledgerStep s s'"
  by (auto simp: enhanceLocalDropdowns_def split: if_splits
      intro: ledgerStep_refl forEach_ledgerStep [of "wireDropdown R", OF wireDropdown_ledgerStep])

lemma enhanceLocalLiveRegions_ledgerStep:
  "enhanceLocalLiveRegions R root s = Inr s' \<Longrightarrow> ledgerStep s s'"
  by (auto simp: enhanceLocalLiveRegions_def split: if_splits
      intro: ledgerStep_refl forEach_ledgerStep [of markLiveRegion, OF markLiveRegion_ledgerStep])

lemma enhanceSliders_ledgerStep:
  "enhanceSliders R root s = Inr s' \<Longrightarrow> ledgerStep s s'"
  by (auto simp: enhanceSliders_def split: if_splits
      intro: ledgerStep_refl forEach_ledgerStep [of "wireSlider R", OF wireSlider_ledgerStep])

lemma runLocalEnhancements_ledgerStep:
  "runLocalEnhancements R root s = Inr s' \<Longrightarrow> ledgerStep s s'"
proof -
  assume "runLocalEnhancements R root s = Inr s'"
  then obtain s1 s2 s3 s4 s5 s6 where
    "enhanceUnlabeledButtons R root s = Inr s1" "enhanceUnlabeledLinks R root s1 = Inr s2"
    "enhanceInputsAndForms R root s2 = Inr s3" "enhanceClickableRoles R root s3 = Inr s4"
    "enhanceLocalDropdowns R root s4 = Inr s5" "enhanceLocalLiveRegions R root s5 = Inr s6"
    "enhanceSliders R root s6 = Inr s'"
    by (auto simp: runLocalEnhancements_def andThen_Inr)
  then have "ledgerStep s s1" "ledgerStep s1 s2" "ledgerStep s2 s3" "ledgerStep s3 s4"
    "ledgerStep s4 s5" "ledgerStep s5 s6" "ledgerStep s6 s'"
    by (simp_all add: enhanceUnlabeledButtons_ledgerStep enhanceUnlabeledLinks_ledgerStep
        enhanceInputsAndForms_ledgerStep enhanceClickableRoles_ledgerStep
        enhanceLocalDropdowns_ledgerStep enhanceLocalLiveRegions_ledgerStep
        enhanceSliders_ledgerStep)
  then show ?thesis by (blast intro: ledgerStep_trans)
qed

lemma enhanceRegionsGlobal_ledgerStep:
  "enhanceRegionsGlobal R s = Inr s' \<Longrightarrow> ledgerStep s s'"
  by (auto simp: enhanceRegionsGlobal_def split: if_splits
      intro: ledgerStep_refl performAll_ledgerStep)

lemma enhanceTabsGlobal_ledgerStep:
  "enhanceTabsGlobal R root s = Inr s' \<Longrightarrow> ledgerStep s s'"
  by (auto simp: enhanceTabsGlobal_def split: if_splits
      intro: ledgerStep_refl forEach_ledgerStep [of "wireTablist R", OF wireTablist_ledgerStep])

lemma enhanceDialogsGlobal_ledgerStep:
  "enhanceDialogsGlobal R root s = Inr s' \<Longrightarrow> ledgerStep s s'"
  by (auto simp: enhanceDialogsGlobal_def split: if_splits
      intro: ledgerStep_refl forEach_ledgerStep [of "wireDialog R", OF wireDialog_ledgerStep])

lemma enhanceStickyHeadersGlobal_ledgerStep:
  "enhanceStickyHeadersGlobal R root s = Inr s' \<Longrightarrow> ledgerStep s s'"
  by (auto simp: enhanceStickyHeadersGlobal_def split: if_splits
      intro: ledgerStep_refl performAll_ledgerStep)

lemma normalizeTabIndexGlobal_ledgerStep:
  "normalizeTabIndexGlobal R root s = Inr s' \<Longrightarrow> ledgerStep s s'"
proof (cases "a11yEnabled s")
  case False
  assume "normalizeTabIndexGlobal R root s = Inr s'"
  with False show ?thesis by (simp add: normalizeTabIndexGlobal_def ledgerStep_refl)
next
  case True
  assume "normalizeTabIndexGlobal R root s = Inr s'"
  with True have f: "forEach
             (\<lambda>el s'. if (case attributes (nodes s' el) ''tabindex'' of
                            None \<Rightarrow> False | Some v \<Rightarrow> positiveTabindex R v)
                      then setAttrTracked el ''tabindex'' ''0'' s' else Inr s')
             (querySelectorAll [HasAttr ''tabindex''] root s) s = Inr s'"
    by (simp add: normalizeTabIndexGlobal_def)
  show ?thesis
    by (rule forEach_ledgerStep [OF _ f]) (rule guarded_write_ledgerStep)
qed



lemma enhanceInfiniteScrollGlobal_zero: "enhanceInfiniteScrollGlobal 0 s = Inr s"
  by (simp add: enhanceInfiniteScrollGlobal_def)

lemma runGlobalEnhancements_steps:
  assumes "runGlobalEnhancements R n s = Inr s'"
  shows "\<exists>s5. ledgerStep s s5 \<and> enhanceInfiniteScrollGlobal n s5 = Inr s'"
proof -
  from assms obtain s1 s2 s3 s4 s5 where
    "enhanceRegionsGlobal R s = Inr s1" "enhanceTabsGlobal R None s1 = Inr s2"
    "enhanceDialogsGlobal R None s2 = Inr s3" "enhanceStickyHeadersGlobal R None s3 = Inr s4"
    "normalizeTabIndexGlobal R None s4 = Inr s5" and last: "enhanceInfiniteScrollGlobal n s5 = Inr s'"
    by (auto simp: runGlobalEnhancements_def andThen_Inr)
  then have "ledgerStep s s1" "ledgerStep s1 s2" "ledgerStep s2 s3" "ledgerStep s3 s4"
    "ledgerStep s4 s5"
    by (simp_all add: enhanceRegionsGlobal_ledgerStep enhanceTabsGlobal_ledgerStep
        enhanceDialogsGlobal_ledgerStep enhanceStickyHeadersGlobal_ledgerStep
        normalizeTabIndexGlobal_ledgerStep)
  then have "ledgerStep s s5" by (blast intro: ledgerStep_trans)
  with last show ?thesis by blast
qed


lemma runGlobalEnhancements_zero_ledgerStep:
  "runGlobalEnhancements R 0 s = Inr s' \<Longrightarrow> ledgerStep s s'"
  using runGlobalEnhancements_steps [of R 0 s s'] by (auto simp: enhanceInfiniteScrollGlobal_zero)

lemmas disabled_defs =
  enhanceUnlabeledButtons_def enhanceUnlabeledLinks_def enhanceInputsAndForms_def
  enhanceClickableRoles_def enhanceLocalDropdowns_def enhanceLocalLiveRegions_def
  enhanceSliders_def enhanceRegionsGlobal_def enhanceTabsGlobal_def enhanceDialogsGlobal_def
  enhanceStickyHeadersGlobal_def normalizeTabIndexGlobal_def enhanceInfiniteScrollGlobal_def

lemma runLocalEnhancements_disabled:
  "\<not> a11yEnabled s \<Longrightarrow> runLocalEnhancements R root s = Inr s"
  by (simp add: runLocalEnhancements_def disabled_defs andThen_def)

lemma runGlobalEnhancements_disabled:
  "\<not> a11yEnabled s \<Longrightarrow> runGlobalEnhancements R n s = Inr s"
  by (simp add: runGlobalEnhancements_def disabled_defs andThen_def)

lemma localBatch_disabled:
  "\<not> a11yEnabled s \<Longrightarrow> forEach (\<lambda>n s'. runLocalEnhancements R (Some n) s') ns s = Inr s"
  by (induction ns) (simp_all add: runLocalEnhancements_disabled)

lemmas engine_defs =
  toggleClick_def enableA11Y_def disableA11Y_def addGlobalStyles_def addSkipLink_def
  insertSkipLink_def
  removeGlobalStyles_def removeSkipLink_def removeLiveRegion_def getLiveRegion_def
  announce_def createElement_def attach_def inSubtree_def appendChild_def insertFirst_def
  removeFromParent_def setAttributeNew_def setTextContent_def idOf_def parentNode_def
  querySelector_def startMutationObserver_def stopMutationObserver_def
  scheduleEnhancements_def observerCallback_def itemSelector_def
  runGlobalEnhancements_def enhanceRegionsGlobal_def enhanceTabsGlobal_def
  enhanceDialogsGlobal_def enhanceStickyHeadersGlobal_def normalizeTabIndexGlobal_def
  enhanceInfiniteScrollGlobal_def tabListSelector_def modalSelector_def wireTablist_def
  wireDialog_def sampleRules_def clearAllTrackedChanges_def restoreEntry_def
  restoreAttr_def restoreStyle_def garbageCollect_def digitChar_def

lemmas rule_defs =
  runLocalEnhancements_def enhanceUnlabeledButtons_def enhanceUnlabeledLinks_def
  enhanceInputsAndForms_def enhanceClickableRoles_def enhanceLocalDropdowns_def
  enhanceLocalLiveRegions_def enhanceSliders_def labelButton_def labelLink_def
  makeClickable_def wireDropdown_def markLiveRegion_def wireSlider_def
  querySelectorAll_def descendants_def matches_def buttonSelector_def dropdownSelector_def
  hasAttribute_def isVisible_def elementHasOwnAccessibility_def isBlank_def isSpace_def
  andThen_def performAll_def flagged_def A11Y_FLAG_def

lemma sample_toggle_on: "toggleClick sampleRules samplePage = Inr sampleEnabled"
  by (simp add: sampleEnabled_def engine_defs rule_defs eval_defs fun_upd_twist)

text \<open>
  Claim C8 (disabled passes do nothing). While \<open>a11yEnabled\<close> is false,
  \<open>runLocalEnhancements\<close> and \<open>runGlobalEnhancements\<close> return the state they were given: no
  tracked write, no ledger entry, no live region, no timer. The same holds for the two
  deferred callbacks when they run after the engine was switched off: the batched local
  pass changes nothing, and the global callback only clears \<open>enhancementScheduled\<close> and
  \<open>pendingItemCount\<close>.
\<close>

theorem disabled_passes_are_noops:
  assumes "\<not> a11yEnabled s"
  shows "runLocalEnhancements R root s = Inr s
     \<and> runGlobalEnhancements R n s = Inr s
     \<and> frameCallback R (LocalBatch ns) s = Inr s
     \<and> frameCallback R GlobalPass s = Inr (s\<lparr>enhancementScheduled := False, pendingItemCount := 0\<rparr>)"
proof -
  have g: "frameCallback R GlobalPass s = Inr (s\<lparr>enhancementScheduled := False, pendingItemCount := 0\<rparr>)"
    using assms by (simp add: Let_def runGlobalEnhancements_disabled andThen_def)
  from assms g show ?thesis
    by (simp add: runLocalEnhancements_disabled runGlobalEnhancements_disabled localBatch_disabled)
qed

theorem disabled_passes_are_noops_witness:
  "\<exists>sd. toggleClick sampleRules (observerCallback [ChildList [2]] sampleEnabled) = Inr sd
     \<and> frameQueue (observerCallback [ChildList [2]] sampleEnabled) = [LocalBatch [2], GlobalPass]
     \<and> \<not> a11yEnabled sd
     \<and> frameQueue sd = [LocalBatch [2], GlobalPass]
     \<and> frameCallback sampleRules (LocalBatch [2]) sd = Inr sd
     \<and> frameCallback sampleRules GlobalPass sd
          = Inr (sd\<lparr>enhancementScheduled := False, pendingItemCount := 0\<rparr>)
     \<and> changeLog sd = [] \<and> liveRegionEl sd = None \<and> timers sd = []"
proof -
  let ?s1 = "observerCallback [ChildList [2]] sampleEnabled"
  let ?sd = "projr (toggleClick sampleRules ?s1)"
  have q: "frameQueue ?s1 = [LocalBatch [2], GlobalPass]"
    by (simp add: sampleEnabled_def engine_defs rule_defs eval_defs)
  have t: "toggleClick sampleRules ?s1 = Inr ?sd"
    by (simp add: sampleEnabled_def engine_defs rule_defs eval_defs)
  have d: "\<not> a11yEnabled ?sd"
    by (simp add: sampleEnabled_def engine_defs rule_defs eval_defs)
  have p: "frameQueue ?sd = [LocalBatch [2], GlobalPass] \<and> changeLog ?sd = []
      \<and> liveRegionEl ?sd = None \<and> timers ?sd = []"
    by (simp add: sampleEnabled_def engine_defs rule_defs eval_defs)
  from disabled_passes_are_noops [OF d, of sampleRules _ _ "[2]"]
  have "frameCallback sampleRules (LocalBatch [2]) ?sd = Inr ?sd"
    and "frameCallback sampleRules GlobalPass ?sd
          = Inr (?sd\<lparr>enhancementScheduled := False, pendingItemCount := 0\<rparr>)"
    by blast+
  with q t d p show ?thesis by blast
qed




lemma parentNode_nodes_cong: "nodes s' = nodes s \<Longrightarrow> parentNode s' k = parentNode s k"
  by (simp add: parentNode_def)

lemma removeFromParent_parent:
  "parentNode (removeFromParent c s) k = (if k = c then None else parentNode s k)"
  by (simp add: parentNode_def removeFromParent_def)

lemma removeSkipLink_parent:
  "parentNode (removeSkipLink s) k = (if skipLinkEl s = Some k then None else parentNode s k)"
  by (auto simp: removeSkipLink_def Let_def parentNode_def removeFromParent_def split: option.splits)

lemma removeLiveRegion_parent:
  "parentNode (removeLiveRegion s) k = (if liveRegionEl s = Some k then None else parentNode s k)"
  by (auto simp: removeLiveRegion_def Let_def parentNode_def removeFromParent_def split: option.splits)

lemma removeGlobalStyles_parent:
  "parentNode (removeGlobalStyles s) k = (if globalStyleEl s = Some k then None else parentNode s k)"
  by (auto simp: removeGlobalStyles_def Let_def parentNode_def removeFromParent_def split: option.splits)

lemma removals_fields:
  "mutationObserver (removeGlobalStyles (removeLiveRegion (removeSkipLink (stopMutationObserver s)))) = None
   \<and> skipLinkEl (removeGlobalStyles (removeLiveRegion (removeSkipLink (stopMutationObserver s)))) = None
   \<and> liveRegionEl (removeGlobalStyles (removeLiveRegion (removeSkipLink (stopMutationObserver s)))) = None
   \<and> globalStyleEl (removeGlobalStyles (removeLiveRegion (removeSkipLink (stopMutationObserver s)))) = None
   \<and> enhancementScheduled (removeGlobalStyles (removeLiveRegion (removeSkipLink (stopMutationObserver s))))
       = enhancementScheduled s
   \<and> frameQueue (removeGlobalStyles (removeLiveRegion (removeSkipLink (stopMutationObserver s))))
       = frameQueue s
   \<and> observing (removeGlobalStyles (removeLiveRegion (removeSkipLink (stopMutationObserver s))))
       = (case mutationObserver s of None \<Rightarrow> observing s | Some ob \<Rightarrow> removeAll ob (observing s))"
  by (simp add: removeGlobalStyles_def removeLiveRegion_def removeSkipLink_def
      stopMutationObserver_def removeFromParent_def Let_def split: option.splits)

lemma removals_refs:
  "skipLinkEl (stopMutationObserver s) = skipLinkEl s"
  "liveRegionEl (removeSkipLink (stopMutationObserver s)) = liveRegionEl s"
  "globalStyleEl (removeLiveRegion (removeSkipLink (stopMutationObserver s))) = globalStyleEl s"
  by (simp_all add: removeLiveRegion_def removeSkipLink_def
      stopMutationObserver_def removeFromParent_def Let_def split: option.splits)

lemma removals_parent:
  "skipLinkEl s = Some k \<or> liveRegionEl s = Some k \<or> globalStyleEl s = Some k \<Longrightarrow>
   parentNode (removeGlobalStyles (removeLiveRegion (removeSkipLink (stopMutationObserver s)))) k = None"
  by (auto simp: removeGlobalStyles_parent removeLiveRegion_parent removeSkipLink_parent removals_refs)

lemma disableA11Y_post:
  "\<exists>s'. disableA11Y s = Inr s'
     \<and> mutationObserver s' = None
     \<and> (\<forall>ob. mutationObserver s = Some ob \<longrightarrow> ob \<notin> set (observing s'))
     \<and> skipLinkEl s' = None \<and> liveRegionEl s' = None \<and> globalStyleEl s' = None
     \<and> (\<forall>k. skipLinkEl s = Some k \<or> liveRegionEl s = Some k \<or> globalStyleEl s = Some k
            \<longrightarrow> parentNode s' k = None)
     \<and> changeLog s' = []
     \<and> pendingItemCount s' = 0 \<and> mutationCounter s' = 0
     \<and> enhancementScheduled s' = enhancementScheduled s
     \<and> frameQueue s' = frameQueue s"
proof -
  let ?s4 = "removeGlobalStyles (removeLiveRegion (removeSkipLink (stopMutationObserver s)))"
  obtain f where c: "clearAllTrackedChanges ?s4 = Inr (?s4\<lparr>nodes := f, changeLog := []\<rparr>)"
    using clearAll_shape by blast
  let ?s' = "?s4\<lparr>nodes := f, changeLog := [], pendingItemCount := 0, mutationCounter := 0\<rparr>"
  have d: "disableA11Y s = Inr ?s'" by (simp add: disableA11Y_def c andThen_def)
  note fl = removals_fields [of s]
  have tree: "\<forall>n. sameTree (nodes ?s4 n) (f n)"
    using clearAll_ledgerStep [OF c] by (simp add: ledgerStep_def)
  have par: "\<forall>k. skipLinkEl s = Some k \<or> liveRegionEl s = Some k \<or> globalStyleEl s = Some k
            \<longrightarrow> parentNode ?s' k = None"
  proof (intro allI impI)
    fix k assume k: "skipLinkEl s = Some k \<or> liveRegionEl s = Some k \<or> globalStyleEl s = Some k"
    have "parentNode ?s4 k = None" using k by (rule removals_parent)
    moreover have "ancestors (f k) = ancestors (nodes ?s4 k)" using tree by (simp add: sameTree_def)
    ultimately show "parentNode ?s' k = None" by (simp add: parentNode_def)
  qed
  have ob: "\<forall>ob. mutationObserver s = Some ob \<longrightarrow> ob \<notin> set (observing ?s')"
    using fl by simp
  have rest: "mutationObserver ?s' = None \<and> skipLinkEl ?s' = None \<and> liveRegionEl ?s' = None
      \<and> globalStyleEl ?s' = None \<and> changeLog ?s' = [] \<and> pendingItemCount ?s' = 0
      \<and> mutationCounter ?s' = 0 \<and> enhancementScheduled ?s' = enhancementScheduled s
      \<and> frameQueue ?s' = frameQueue s"
    using fl by simp
  from d ob par rest show ?thesis by blast
qed

text \<open>
  Claim C4 (state after disable), as the code has it. \<open>disableA11Y\<close> returns in every
  state; afterwards the observer is disconnected and its variable is null, the skip link,
  the live region and the style sheet are out of the tree and their variables are null,
  the change log is empty, and \<open>pendingItemCount\<close> and \<open>mutationCounter\<close> are zero.
  \<open>enhancementScheduled\<close> and the queue of frame callbacks are left as they were: a pass
  scheduled before the call stays pending, with its flag set.
\<close>

theorem disable_resets:
  "\<exists>s'. disableA11Y s = Inr s'
     \<and> mutationObserver s' = None
     \<and> (\<forall>ob. mutationObserver s = Some ob \<longrightarrow> ob \<notin> set (observing s'))
     \<and> skipLinkEl s' = None \<and> liveRegionEl s' = None \<and> globalStyleEl s' = None
     \<and> (\<forall>k. skipLinkEl s = Some k \<or> liveRegionEl s = Some k \<or> globalStyleEl s = Some k
            \<longrightarrow> parentNode s' k = None)
     \<and> changeLog s' = []
     \<and> pendingItemCount s' = 0 \<and> mutationCounter s' = 0
     \<and> enhancementScheduled s' = enhancementScheduled s
     \<and> frameQueue s' = frameQueue s"
  by (rule disableA11Y_post)

theorem disable_resets_witness:
  "skipLinkEl samplePending = Some 6 \<and> parentNode samplePending 6 = Some 1
   \<and> mutationObserver samplePending = Some 0 \<and> observing samplePending = [0]
   \<and> pendingItemCount samplePending = 3
   \<and> attributes (nodes samplePending 2) ''role'' = Some ''button''
   \<and> (\<exists>s'. disableA11Y samplePending = Inr s'
         \<and> parentNode s' 6 = None \<and> mutationObserver s' = None \<and> observing s' = []
         \<and> changeLog s' = [] \<and> pendingItemCount s' = 0
         \<and> attributes (nodes s' 2) ''role'' = None)"
proof -
  have h: "skipLinkEl samplePending = Some 6 \<and> parentNode samplePending 6 = Some 1
   \<and> mutationObserver samplePending = Some 0 \<and> observing samplePending = [0]
   \<and> pendingItemCount samplePending = 3
   \<and> attributes (nodes samplePending 2) ''role'' = Some ''button''"
    by (simp add: samplePending_def sampleEnabled_def engine_defs eval_defs)
  have ev: "disableA11Y samplePending = Inr (projr (disableA11Y samplePending))"
    by (simp add: samplePending_def sampleEnabled_def engine_defs eval_defs andThen_def)
  have more: "observing (projr (disableA11Y samplePending)) = []
      \<and> attributes (nodes (projr (disableA11Y samplePending)) 2) ''role'' = None"
    by (simp add: samplePending_def sampleEnabled_def engine_defs eval_defs andThen_def)
  from disable_resets [of samplePending] ev h
  have "parentNode (projr (disableA11Y samplePending)) 6 = None
      \<and> mutationObserver (projr (disableA11Y samplePending)) = None
      \<and> changeLog (projr (disableA11Y samplePending)) = []
      \<and> pendingItemCount (projr (disableA11Y samplePending)) = 0"
    by auto
  with h ev more show ?thesis by blast
qed

text \<open>
  Claim C4 as stated fails on the coalescing flag: on the sample page with a global pass
  scheduled, \<open>disableA11Y\<close> returns with \<open>enhancementScheduled\<close> still true and the
  callback still queued.
\<close>

theorem disable_keeps_flag_counterexample:
  "a11yEnabled samplePending = False
   \<and> frameQueue samplePending = [GlobalPass]
   \<and> \<not> isl (disableA11Y samplePending)
   \<and> enhancementScheduled (projr (disableA11Y samplePending)) = True
   \<and> frameQueue (projr (disableA11Y samplePending)) = [GlobalPass]"
  by (simp add: samplePending_def sampleEnabled_def engine_defs eval_defs andThen_def)

lemma addGlobalStyles_present: "globalStyleEl s \<noteq> None \<Longrightarrow> addGlobalStyles s = s"
  by (simp add: addGlobalStyles_def)

lemma addSkipLink_present:
  "a11yEnabled s \<Longrightarrow> skipLinkEl s = Some k \<Longrightarrow> parentNode s k \<noteq> None \<Longrightarrow> addSkipLink s = Inr s"
  by (simp add: addSkipLink_def split: option.splits)

lemma startMutationObserver_present:
  "mutationObserver s \<noteq> None \<Longrightarrow> startMutationObserver s = s"
  by (simp add: startMutationObserver_def)

lemma disableA11Y_idle:
  "mutationObserver s = None \<Longrightarrow> skipLinkEl s = None \<Longrightarrow> liveRegionEl s = None \<Longrightarrow>
   globalStyleEl s = None \<Longrightarrow> changeLog s = [] \<Longrightarrow> pendingItemCount s = 0 \<Longrightarrow>
   mutationCounter s = 0 \<Longrightarrow> disableA11Y s = Inr s"
  by (cases s)
     (simp add: disableA11Y_def stopMutationObserver_def removeSkipLink_def removeLiveRegion_def
        removeGlobalStyles_def clearAllTrackedChanges_def andThen_def)

lemma addGlobalStyles_post:
  "globalStyleEl (addGlobalStyles s) \<noteq> None \<or> \<not> a11yEnabled (addGlobalStyles s)
     \<or> docHead (addGlobalStyles s) = None"
  by (auto simp: addGlobalStyles_def createElement_def setAttributeNew_def setTextContent_def
        appendChild_def attach_def Let_def split: option.splits)

lemma insertSkipLink_post:
  "globalStyleEl (insertSkipLink b m s) = globalStyleEl s
   \<and> a11yEnabled (insertSkipLink b m s) = a11yEnabled s
   \<and> docHead (insertSkipLink b m s) = docHead s \<and> docBody (insertSkipLink b m s) = docBody s
   \<and> (case skipLinkEl (insertSkipLink b m s) of
         None \<Rightarrow> False | Some k \<Rightarrow> parentNode (insertSkipLink b m s) k \<noteq> None)"
  by (simp add: insertSkipLink_def createElement_def setAttributeNew_def setTextContent_def
      insertFirst_def attach_def parentNode_def Let_def)

lemma addSkipLink_post:
  assumes "addSkipLink s = Inr s'"
  shows "globalStyleEl s' = globalStyleEl s \<and> a11yEnabled s' = a11yEnabled s
     \<and> docHead s' = docHead s \<and> docBody s' = docBody s
     \<and> (\<not> a11yEnabled s' \<or> docBody s' = None
           \<or> (case skipLinkEl s' of None \<Rightarrow> False | Some k \<Rightarrow> parentNode s' k \<noteq> None))"
proof (cases "\<not> a11yEnabled s \<or> docBody s = None
    \<or> (case skipLinkEl s of None \<Rightarrow> False | Some k \<Rightarrow> parentNode s k \<noteq> None)")
  case True
  with assms have "s' = s" by (auto simp: addSkipLink_def split: option.splits if_splits)
  with True show ?thesis by (auto split: option.splits)
next
  case False
  then obtain b where b: "docBody s = Some b" and en: "a11yEnabled s" by auto
  let ?m = "case querySelector [Tag ''MAIN''] s of None \<Rightarrow> b | Some m \<Rightarrow> m"
  from assms False b en obtain s1 where
    w: "(if idOf s ?m = [] then setAttrTracked ?m ''id'' ''a11y-main'' s else Inr s) = Inr s1"
    and e: "s' = insertSkipLink b ?m s1"
    by (auto simp: addSkipLink_def andThen_Inr Let_def)
  have st: "ledgerStep s s1" using w by (rule guarded_write_ledgerStep)
  then have f: "globalStyleEl s1 = globalStyleEl s \<and> a11yEnabled s1 = a11yEnabled s
     \<and> docHead s1 = docHead s \<and> docBody s1 = docBody s"
    by (simp add: ledgerStep_def schedStep_def)
  from insertSkipLink_post [of b ?m s1] f show ?thesis
    unfolding e by (auto split: option.splits)
qed

lemma ledgerStep_guards:
  assumes "ledgerStep s s'"
  shows "globalStyleEl s' = globalStyleEl s" "a11yEnabled s' = a11yEnabled s"
    "docHead s' = docHead s" "docBody s' = docBody s" "skipLinkEl s' = skipLinkEl s"
    "observerSupport s' = observerSupport s" "mutationObserver s' = mutationObserver s"
    "parentNode s' k = parentNode s k"
  using assms by (simp_all add: ledgerStep_def schedStep_def sameTree_def parentNode_def)

lemma enableA11Y_guardsHold:
  assumes "enableA11Y R s0 = Inr s"
  shows "guardsHold s"
proof -
  from assms obtain s2 s3 s4 where k: "addSkipLink (addGlobalStyles s0) = Inr s2"
    and l: "runLocalEnhancements R (docBody s2) s2 = Inr s3"
    and g: "runGlobalEnhancements R 0 s3 = Inr s4"
    and e: "s = startMutationObserver s4"
    by (auto simp: enableA11Y_def andThen_Inr)
  note p1 = addGlobalStyles_post [of s0]
  note p2 = addSkipLink_post [OF k]
  have st: "ledgerStep s2 s4"
    using runLocalEnhancements_ledgerStep [OF l] runGlobalEnhancements_zero_ledgerStep [OF g]
    by (rule ledgerStep_trans)
  note fr = ledgerStep_guards [OF st]
  have a: "globalStyleEl s4 \<noteq> None \<or> \<not> a11yEnabled s4 \<or> docHead s4 = None"
    using p1 p2 by (auto simp: fr)
  have b: "\<not> a11yEnabled s4 \<or> docBody s4 = None
           \<or> (case skipLinkEl s4 of None \<Rightarrow> False | Some k \<Rightarrow> parentNode s4 k \<noteq> None)"
    using p2 by (auto simp: fr split: option.splits)
  show ?thesis
    using a b
    by (subst e)+ (auto simp: guardsHold_def startMutationObserver_def parentNode_def split: option.splits)
qed

lemma enableA11Y_again:
  assumes gh: "guardsHold s" and en: "enableA11Y R s = Inr s'"
  shows "ledgerStep s s'"
proof -
  from gh have g: "addGlobalStyles s = s" by (auto simp: guardsHold_def addGlobalStyles_def)
  from gh have k: "addSkipLink s = Inr s"
    by (auto simp: guardsHold_def addSkipLink_def split: option.splits)
  from en obtain s2 s3 where l: "runLocalEnhancements R (docBody s) s = Inr s2"
    and gl: "runGlobalEnhancements R 0 s2 = Inr s3"
    and e: "s' = startMutationObserver s3"
    by (auto simp: enableA11Y_def g k andThen_Inr)
  have st: "ledgerStep s s3"
    using runLocalEnhancements_ledgerStep [OF l] runGlobalEnhancements_zero_ledgerStep [OF gl]
    by (rule ledgerStep_trans)
  note fr = ledgerStep_guards [OF st]
  from gh have "startMutationObserver s3 = s3"
    by (auto simp: guardsHold_def startMutationObserver_def fr)
  with e st show ?thesis by simp
qed

text \<open>
  Claim C7 (re-entrant transitions). A call of \<open>enableA11Y\<close> in the state an earlier call
  left creates no node and no observer: style sheet, skip link, live region, observer, the
  list of attached observers and the tree are the same afterwards. A call of
  \<open>disableA11Y\<close> in the state an earlier call left, or in any state where the observer and
  the three nodes are null, the change log is empty and both counters are zero, returns
  that same state.
\<close>

theorem reentrant_transitions:
  "(enableA11Y R s0 = Inr s \<and> enableA11Y R s = Inr s' \<longrightarrow>
        globalStyleEl s' = globalStyleEl s \<and> skipLinkEl s' = skipLinkEl s
        \<and> liveRegionEl s' = liveRegionEl s
        \<and> mutationObserver s' = mutationObserver s \<and> observing s' = observing s
        \<and> nextObserver s' = nextObserver s
        \<and> nextNode s' = nextNode s \<and> treeOrder s' = treeOrder s
        \<and> (\<forall>n. parentNode s' n = parentNode s n))
   \<and> (disableA11Y s0 = Inr s \<longrightarrow> disableA11Y s = Inr s)
   \<and> (mutationObserver s = None \<and> skipLinkEl s = None \<and> liveRegionEl s = None
      \<and> globalStyleEl s = None \<and> changeLog s = [] \<and> pendingItemCount s = 0
      \<and> mutationCounter s = 0 \<longrightarrow> disableA11Y s = Inr s)"
proof (intro conjI impI)
  assume h: "enableA11Y R s0 = Inr s \<and> enableA11Y R s = Inr s'"
  then have "guardsHold s" by (blast intro: enableA11Y_guardsHold)
  with h have st: "ledgerStep s s'" by (blast intro: enableA11Y_again)
  from st show "globalStyleEl s' = globalStyleEl s" "skipLinkEl s' = skipLinkEl s"
    "liveRegionEl s' = liveRegionEl s"
    "mutationObserver s' = mutationObserver s" "observing s' = observing s"
    "nextObserver s' = nextObserver s" "nextNode s' = nextNode s" "treeOrder s' = treeOrder s"
    by (simp_all add: ledgerStep_def schedStep_def)
  from st show "\<forall>n. parentNode s' n = parentNode s n"
    by (simp add: ledgerStep_def sameTree_def parentNode_def)
next
  assume d: "disableA11Y s0 = Inr s"
  from disableA11Y_post [of s0] d
  have "mutationObserver s = None \<and> skipLinkEl s = None \<and> liveRegionEl s = None
      \<and> globalStyleEl s = None \<and> changeLog s = [] \<and> pendingItemCount s = 0
      \<and> mutationCounter s = 0"
    by auto
  then show "disableA11Y s = Inr s" by (simp add: disableA11Y_idle)
next
  assume "mutationObserver s = None \<and> skipLinkEl s = None \<and> liveRegionEl s = None
      \<and> globalStyleEl s = None \<and> changeLog s = [] \<and> pendingItemCount s = 0
      \<and> mutationCounter s = 0"
  then show "disableA11Y s = Inr s" by (simp add: disableA11Y_idle)
qed

theorem reentrant_transitions_witness:
  "enableA11Y sampleRules (samplePage\<lparr>a11yEnabled := True\<rparr>) = Inr sampleEnabled
   \<and> globalStyleEl sampleEnabled = Some 5
   \<and> skipLinkEl sampleEnabled = Some 6 \<and> parentNode sampleEnabled 6 = Some 1
   \<and> mutationObserver sampleEnabled = Some 0
   \<and> (\<exists>s'. enableA11Y sampleRules sampleEnabled = Inr s'
         \<and> globalStyleEl s' = Some 5 \<and> skipLinkEl s' = Some 6 \<and> parentNode s' 6 = Some 1
         \<and> mutationObserver s' = Some 0 \<and> observing s' = [0]
         \<and> nextNode s' = 7 \<and> treeOrder s' = [0, 5, 1, 6, 2, 3, 4])
   \<and> disableA11Y samplePage = Inr samplePage"
proof -
  have first: "enableA11Y sampleRules (samplePage\<lparr>a11yEnabled := True\<rparr>) = Inr sampleEnabled"
    by (simp add: sampleEnabled_def engine_defs rule_defs eval_defs fun_upd_twist)
  have h: "globalStyleEl sampleEnabled = Some 5
   \<and> skipLinkEl sampleEnabled = Some 6 \<and> parentNode sampleEnabled 6 = Some 1
   \<and> mutationObserver sampleEnabled = Some 0 \<and> observing sampleEnabled = [0]
   \<and> nextNode sampleEnabled = 7 \<and> treeOrder sampleEnabled = [0, 5, 1, 6, 2, 3, 4]"
    by (simp add: sampleEnabled_def engine_defs eval_defs)
  have ev: "enableA11Y sampleRules sampleEnabled = Inr (projr (enableA11Y sampleRules sampleEnabled))"
    by (simp add: sampleEnabled_def engine_defs rule_defs eval_defs)
  from reentrant_transitions [of sampleRules "samplePage\<lparr>a11yEnabled := True\<rparr>" sampleEnabled
      "projr (enableA11Y sampleRules sampleEnabled)"] first h ev
  have a: "globalStyleEl (projr (enableA11Y sampleRules sampleEnabled)) = Some 5
      \<and> skipLinkEl (projr (enableA11Y sampleRules sampleEnabled)) = Some 6
      \<and> parentNode (projr (enableA11Y sampleRules sampleEnabled)) 6 = Some 1
      \<and> mutationObserver (projr (enableA11Y sampleRules sampleEnabled)) = Some 0
      \<and> observing (projr (enableA11Y sampleRules sampleEnabled)) = [0]
      \<and> nextNode (projr (enableA11Y sampleRules sampleEnabled)) = 7
      \<and> treeOrder (projr (enableA11Y sampleRules sampleEnabled)) = [0, 5, 1, 6, 2, 3, 4]"
    by auto
  have i: "mutationObserver samplePage = None \<and> skipLinkEl samplePage = None
      \<and> liveRegionEl samplePage = None \<and> globalStyleEl samplePage = None
      \<and> changeLog samplePage = [] \<and> pendingItemCount samplePage = 0
      \<and> mutationCounter samplePage = 0"
    by (simp add: eval_defs)
  from reentrant_transitions [of _ _ samplePage] i
  have b: "disableA11Y samplePage = Inr samplePage" by blast
  from first h ev a b show ?thesis by blast
qed

text \<open>
  The second pass over the sample page writes \<open>aria-label\<close> whatever the parameters of
  the rules are: no parameter is consulted but the label itself.
\<close>

lemma second_local_pass_any_rules:
  "runLocalEnhancements R (Some 1) (samplePage\<lparr>a11yEnabled := True\<rparr>) = Inr sampleFirstPass
   \<and> (\<exists>s2. runLocalEnhancements R (Some 1) sampleFirstPass = Inr s2
         \<and> capturedAttr s2 2 ''aria-label'' = Some None
         \<and> attributes (nodes s2 2) ''aria-label'' = Some (buttonLabel R sampleFirstPass 2))"
proof -
  have a: "runLocalEnhancements R (Some 1) (samplePage\<lparr>a11yEnabled := True\<rparr>) = Inr sampleFirstPass"
    by (simp add: sampleFirstPass_def rule_defs eval_defs)
  have b: "runLocalEnhancements R (Some 1) sampleFirstPass
      = Inr (sampleFirstPass
          \<lparr>nodes := (nodes sampleFirstPass)
             (2 := (nodes sampleFirstPass 2)\<lparr>attributes :=
                (attributes (nodes sampleFirstPass 2))(''aria-label'' \<mapsto> buttonLabel R sampleFirstPass 2)\<rparr>),
           changeLog := [(2, \<lparr>attrs = [(''role'', None), (''tabindex'', None), (''aria-label'', None)],
                           styles = []\<rparr>)]\<rparr>)"
    by (simp add: sampleFirstPass_def rule_defs eval_defs)
  let ?s2 = "sampleFirstPass
          \<lparr>nodes := (nodes sampleFirstPass)
             (2 := (nodes sampleFirstPass 2)\<lparr>attributes :=
                (attributes (nodes sampleFirstPass 2))(''aria-label'' \<mapsto> buttonLabel R sampleFirstPass 2)\<rparr>),
           changeLog := [(2, \<lparr>attrs = [(''role'', None), (''tabindex'', None), (''aria-label'', None)],
                           styles = []\<rparr>)]\<rparr>"
  have c: "capturedAttr ?s2 2 ''aria-label'' = Some None" by (simp add: capturedAttr_def getEntry_def)
  have d: "attributes (nodes ?s2 2) ''aria-label'' = Some (buttonLabel R sampleFirstPass 2)" by simp
  from a b c d show ?thesis by blast
qed

text \<open>
  Claim C5 (idempotence of the local pass) at the sample page. The first pass leaves the
  empty \<open><div class="clickable">\<close> to \<open>enhanceUnlabeledButtons\<close> unselected and then gives
  it \<open>role="button"\<close> in \<open>enhanceClickableRoles\<close>; the second pass over the unchanged page
  selects it by that role and writes \<open>aria-label\<close>, a third key in the node's ledger entry.
\<close>

theorem second_local_pass_writes:
  "runLocalEnhancements sampleRules (Some 1) (samplePage\<lparr>a11yEnabled := True\<rparr>) = Inr sampleFirstPass
   \<and> runLocalEnhancements sampleRules (Some 1) sampleFirstPass = Inr sampleSecondPass
   \<and> capturedAttr sampleFirstPass 2 ''aria-label'' = None
   \<and> capturedAttr sampleSecondPass 2 ''aria-label'' = Some None
   \<and> attributes (nodes sampleFirstPass 2) ''aria-label'' = None
   \<and> attributes (nodes sampleSecondPass 2) ''aria-label'' = Some ''Button''
   \<and> length (attrs (getEntry sampleFirstPass 2)) = 2
   \<and> length (attrs (getEntry sampleSecondPass 2)) = 3"
proof -
  have a: "runLocalEnhancements sampleRules (Some 1) (samplePage\<lparr>a11yEnabled := True\<rparr>) = Inr sampleFirstPass"
    by (simp add: sampleFirstPass_def sampleRules_def rule_defs eval_defs)
  have b: "runLocalEnhancements sampleRules (Some 1) sampleFirstPass = Inr sampleSecondPass"
    by (simp add: sampleFirstPass_def sampleSecondPass_def sampleRules_def rule_defs eval_defs)
  have c: "capturedAttr sampleFirstPass 2 ''aria-label'' = None
   \<and> capturedAttr sampleSecondPass 2 ''aria-label'' = Some None
   \<and> attributes (nodes sampleFirstPass 2) ''aria-label'' = None
   \<and> attributes (nodes sampleSecondPass 2) ''aria-label'' = Some ''Button''
   \<and> length (attrs (getEntry sampleFirstPass 2)) = 2
   \<and> length (attrs (getEntry sampleSecondPass 2)) = 3"
    by (simp add: sampleFirstPass_def sampleSecondPass_def eval_defs)
  from a b c show ?thesis by blast
qed

end
